(* ===== verification/Book_Prelude.thy ===== *)
theory Book_Prelude
  imports Complex_Main "HOL-Library.Word"
begin

text \<open>
  Shared vocabulary of the development: the types that name the model's values, the
  JavaScript number operations that \<open>src/src/components/Book.jsx\<close> relies on
  (\<open>Math.floor\<close>-based truncation and the \<open>%\<close> operator), and the generic facts
  on reals and lists that the component theories share. JavaScript numbers are modelled as
  exact reals; the development says nothing about IEEE rounding.
\<close>

type_synonym angle = real
type_synonym vec3 = "real \<times> real \<times> real"

named_theorems page_consts
  "the numeric constants of Book.jsx, unfolded for ground evaluation"

named_theorems frame_simps
  "rewrite rules for one frame of the page animation"

section \<open>JavaScript number operations\<close>

text \<open>
  \<open>Math.trunc\<close> rounds towards zero and \<open>a % b\<close> is the truncated remainder: its
  sign is that of the dividend, unlike Isabelle's \<open>mod\<close> on \<open>int\<close>.
\<close>

definition js_trunc :: "real \<Rightarrow> int" where
  "js_trunc r = (if 0 \<le> r then \<lfloor>r\<rfloor> else \<lceil>r\<rceil>)"

definition js_rem :: "real \<Rightarrow> real \<Rightarrow> real" where
  "js_rem a b = a - b * of_int (js_trunc (a / b))"

text \<open>\<open>Math.max(lo, Math.min(hi, v))\<close>, the clamp of maath's \<open>misc\<close> module.\<close>

definition js_clamp :: "real \<Rightarrow> real \<Rightarrow> real \<Rightarrow> real" where
  "js_clamp v lo hi = max lo (min hi v)"

section \<open>Shared lemmas\<close>

lemma js_rem_nonneg_eq:
  assumes "0 \<le> a" "0 < b"
  shows "js_rem a b = a - b * of_int \<lfloor>a / b\<rfloor>"
  using assms by (simp add: js_rem_def js_trunc_def)

lemma floor_div_bounds:
  fixes a b :: real
  assumes "0 < b"
  shows "b * of_int \<lfloor>a / b\<rfloor> \<le> a \<and> a < b * of_int \<lfloor>a / b\<rfloor> + b"
proof -
  have lo: "of_int \<lfloor>a / b\<rfloor> \<le> a / b" by (rule of_int_floor_le)
  have hi: "a / b < of_int \<lfloor>a / b\<rfloor> + 1" by (rule real_of_int_floor_add_one_gt)
  from lo assms have "b * of_int \<lfloor>a / b\<rfloor> \<le> a"
    by (simp add: le_divide_eq mult.commute)
  moreover have "a < b * of_int \<lfloor>a / b\<rfloor> + b"
  proof -
    from hi assms have "a < (of_int \<lfloor>a / b\<rfloor> + 1) * b"
      by (simp only: divide_less_eq)
    then show ?thesis by (simp add: algebra_simps)
  qed
  ultimately show ?thesis ..
qed

lemma js_rem_nonneg_bounds:
  assumes "0 \<le> a" "0 < b"
  shows "0 \<le> js_rem a b \<and> js_rem a b < b"
  using floor_div_bounds [OF assms(2), of a] assms by (simp add: js_rem_nonneg_eq)

lemma js_rem_multiple [simp]:
  assumes "0 < b"
  shows "js_rem (of_nat k * b) b = 0"
  using assms by (simp add: js_rem_def js_trunc_def)

lemma js_clamp_bounds: "lo \<le> hi \<Longrightarrow> lo \<le> js_clamp v lo hi \<and> js_clamp v lo hi \<le> hi"
  by (simp add: js_clamp_def)

text \<open>
  A list built by concatenating blocks of a fixed size \<open>m\<close>, one per element, holds
  the \<open>j\<close>-th slot of element \<open>k\<close> at index \<open>m * k + j\<close>: the layout of an
  interleaved buffer attribute of item size \<open>m\<close>.
\<close>

lemma nth_concat_blocks:
  assumes "\<forall>x\<in>set xs. length (f x) = m" "k < length xs" "j < m"
  shows "concat (map f xs) ! (m * k + j) = f (xs ! k) ! j"
  using assms
proof (induction xs arbitrary: k)
  case Nil
  then show ?case by simp
next
  case (Cons x xs)
  show ?case
  proof (cases k)
    case 0
    with Cons.prems show ?thesis by (simp add: nth_append)
  next
    case (Suc k')
    with Cons.prems have "concat (map f xs) ! (m * k' + j) = f (xs ! k') ! j"
      by (intro Cons.IH) auto
    with Suc Cons.prems show ?thesis by (simp add: nth_append algebra_simps)
  qed
qed

lemma length_concat_blocks:
  "\<forall>x\<in>set xs. length (f x) = m \<Longrightarrow> length (concat (map f xs)) = m * length xs"
  by (induction xs) auto

lemma block_concat_blocks:
  assumes "\<forall>x\<in>set xs. length (f x) = m" "k < length xs"
  shows "take m (drop (m * k) (concat (map f xs))) = f (xs ! k)"
proof -
  have split: "xs = take k xs @ xs ! k # drop (Suc k) xs"
    using assms(2) by (rule id_take_nth_drop)
  have pre: "length (concat (map f (take k xs))) = m * k"
    using assms by (subst length_concat_blocks [where m = m]) (auto dest: in_set_takeD)
  have "concat (map f xs) =
        concat (map f (take k xs)) @ f (xs ! k) @ concat (map f (drop (Suc k) xs))"
    by (subst split) simp
  moreover have "length (f (xs ! k)) = m" using assms by simp
  ultimately show ?thesis using pre by simp
qed

lemma nth_of_block:
  assumes "take m (drop j xs) = ys" "i < length ys"
  shows "xs ! (j + i) = ys ! i"
proof -
  from assms have "i < m" "j + i < length xs" by auto
  with assms show ?thesis by (auto simp: nth_take nth_drop)
qed

text \<open>A lower bound on \<open>\<pi>\<close>, from \<open>sin (\<pi>/6) = 1/2\<close> and \<open>sin x \<le> x\<close>.\<close>

lemma pi_ge_three: "3 \<le> pi"
proof -
  have "sin (pi / 6) \<le> pi / 6" by (rule sin_x_le_x) simp
  then show ?thesis by (simp add: sin_30)
qed

end
