(* ===== verification/Page_Geometry.thy ===== *)
theory Page_Geometry
  imports Book_Prelude
begin

text \<open>
  The one-time construction of the shared page geometry (\<open>Book.jsx\<close>, lines 22--73):
  the module constants, the vertex positions of the subdivided box that three.js's
  \<open>BoxGeometry\<close> produces, the translation that moves the spine edge to \<open>x = 0\<close>,
  and the loop that assigns every vertex its two skin indices and weights, stored in a
  \<open>Uint16\<close> and a \<open>Float32\<close> buffer attribute of item size 4.
\<close>

section \<open>Module constants\<close>

definition easingFactor :: real where [page_consts]: "easingFactor = 0.5"
definition insideCurveStrength :: real where [page_consts]: "insideCurveStrength = 0.15"
definition PAGE_WIDTH :: real where [page_consts]: "PAGE_WIDTH = 1.48"
definition PAGE_HEIGHT :: real where [page_consts]: "PAGE_HEIGHT = 2.1"
definition PAGE_DEPTH :: real where [page_consts]: "PAGE_DEPTH = 0.003"
definition PAGE_SEGMENTS :: nat where [page_consts]: "PAGE_SEGMENTS = 30"
definition SEGMENT_WIDTH :: real where
  [page_consts]: "SEGMENT_WIDTH = PAGE_WIDTH / real PAGE_SEGMENTS"

section \<open>three.js BoxGeometry positions\<close>

text \<open>
  \<open>BoxGeometry(width, height, depth, widthSegments, heightSegments, depthSegments)\<close>
  calls \<open>buildPlane\<close> once per face. \<open>buildPlane(u, v, w, udir, vdir, width, height,
  depth, gridX, gridY)\<close> emits, row by row (\<open>iy\<close> outer, \<open>ix\<close> inner), the vertex
  whose \<open>u\<close> coordinate is \<open>(ix * width/gridX - width/2) * udir\<close>, whose \<open>v\<close>
  coordinate is \<open>(iy * height/gridY - height/2) * vdir\<close> and whose \<open>w\<close> coordinate
  is \<open>depth/2\<close>. Only the position attribute is modelled; normals, uvs, index and
  material groups are not read by \<open>Book.jsx\<close>.
\<close>

datatype axis = AxisX | AxisY | AxisZ

fun set_coord :: "axis \<Rightarrow> real \<Rightarrow> vec3 \<Rightarrow> vec3" where
  "set_coord AxisX r (x, y, z) = (r, y, z)"
| "set_coord AxisY r (x, y, z) = (x, r, z)"
| "set_coord AxisZ r (x, y, z) = (x, y, r)"

definition plane_vertex ::
  "axis \<Rightarrow> axis \<Rightarrow> axis \<Rightarrow> real \<Rightarrow> real \<Rightarrow> real \<Rightarrow> real \<Rightarrow> real \<Rightarrow> nat \<Rightarrow> nat
   \<Rightarrow> nat \<Rightarrow> nat \<Rightarrow> vec3" where
  "plane_vertex u v w udir vdir width height depth gridX gridY ix iy =
     (let segmentWidth = width / real gridX;
          segmentHeight = height / real gridY;
          x = real ix * segmentWidth - width / 2;
          y = real iy * segmentHeight - height / 2
      in set_coord w (depth / 2) (set_coord v (y * vdir) (set_coord u (x * udir) (0, 0, 0))))"

definition buildPlane ::
  "axis \<Rightarrow> axis \<Rightarrow> axis \<Rightarrow> real \<Rightarrow> real \<Rightarrow> real \<Rightarrow> real \<Rightarrow> real \<Rightarrow> nat \<Rightarrow> nat
   \<Rightarrow> vec3 list" where
  "buildPlane u v w udir vdir width height depth gridX gridY =
     concat (map (\<lambda>iy. map (\<lambda>ix. plane_vertex u v w udir vdir width height depth gridX gridY ix iy)
                           [0..<Suc gridX])
                 [0..<Suc gridY])"

definition BoxGeometry :: "real \<Rightarrow> real \<Rightarrow> real \<Rightarrow> nat \<Rightarrow> nat \<Rightarrow> nat \<Rightarrow> vec3 list" where
  "BoxGeometry width height depth widthSegments heightSegments depthSegments =
     buildPlane AxisZ AxisY AxisX (-1) (-1) depth height width depthSegments heightSegments
   @ buildPlane AxisZ AxisY AxisX 1 (-1) depth height (- width) depthSegments heightSegments
   @ buildPlane AxisX AxisZ AxisY 1 1 width depth height widthSegments depthSegments
   @ buildPlane AxisX AxisZ AxisY 1 (-1) width depth (- height) widthSegments depthSegments
   @ buildPlane AxisX AxisY AxisZ 1 (-1) width height depth widthSegments heightSegments
   @ buildPlane AxisX AxisY AxisZ (-1) (-1) width height (- depth) widthSegments heightSegments"

text \<open>\<open>BufferGeometry.translate(tx, ty, tz)\<close> on the position attribute.\<close>

definition translate :: "real \<Rightarrow> real \<Rightarrow> real \<Rightarrow> vec3 list \<Rightarrow> vec3 list" where
  "translate tx ty tz ps = map (\<lambda>(x, y, z). (x + tx, y + ty, z + tz)) ps"

text \<open>
  Lines 39--47: the box, then the shift by half a width, as exact reals. three.js keeps the
  positions in a \<open>Float32BufferAttribute\<close> and \<open>translate\<close> writes them back through
  \<open>setXYZ\<close>, so the program's values are these rounded to single precision twice:
  the spine column, for one, becomes \<open>float32(float32(-0.74) + 0.74)\<close>, about
  \<open>-9.5e-9\<close>. The skinning is therefore modelled over any position attribute
  (\<open>skinned_geometry\<close> below).
\<close>

definition page_positions :: "vec3 list" where
  "page_positions =
     translate (PAGE_WIDTH / 2) 0 0
       (BoxGeometry PAGE_WIDTH PAGE_HEIGHT PAGE_DEPTH PAGE_SEGMENTS 2 1)"

section \<open>Skin indices and weights\<close>

text \<open>
  The body of the vertex loop (lines 56--62) for a vertex at width offset \<open>x\<close>: the
  index slots \<open>[skinIndex, skinIndex + 1, 0, 0]\<close> and the weight slots
  \<open>[1 - skinWeight, skinWeight, 0, 0]\<close>, with \<open>skinIndex = max(0, floor(x / SW))\<close>
  and \<open>skinWeight = (x % SW) / SW\<close>.
\<close>

definition vertex_skin :: "real \<Rightarrow> int list \<times> real list" where
  "vertex_skin x =
     (let skinIndex = max 0 \<lfloor>x / SEGMENT_WIDTH\<rfloor>;
          skinWeight = js_rem x SEGMENT_WIDTH / SEGMENT_WIDTH
      in ([skinIndex, skinIndex + 1, 0, 0], [1 - skinWeight, skinWeight, 0, 0]))"

text \<open>The loop of lines 54--63, pushing onto \<open>skinIndexes\<close> and \<open>skinWeights\<close>.\<close>

fun skin_loop :: "vec3 list \<Rightarrow> int list \<Rightarrow> real list \<Rightarrow> int list \<times> real list" where
  "skin_loop [] skinIndexes skinWeights = (skinIndexes, skinWeights)"
| "skin_loop (vertex # vs) skinIndexes skinWeights =
     (let (idx, wts) = vertex_skin (fst vertex)
      in skin_loop vs (skinIndexes @ idx) (skinWeights @ wts))"

text \<open>
  \<open>new Uint16BufferAttribute(skinIndexes, 4)\<close> stores each index in a \<open>Uint16Array\<close>,
  i.e. modulo \<open>2^16\<close>; \<open>Float32BufferAttribute\<close> rounds each weight to single
  precision, which the exact-real model leaves out.
\<close>

definition Uint16BufferAttribute :: "int list \<Rightarrow> 16 word list" where
  "Uint16BufferAttribute xs = map word_of_int xs"

record page_geometry =
  position :: "vec3 list"
  skinIndex :: "16 word list"
  skinWeight :: "real list"

text \<open>
  Lines 49--73 over a given position attribute: the loop reads each vertex's \<open>x\<close>
  from the attribute and the two buffers are set on the geometry. The program's attribute
  holds the \<open>Float32\<close> values of \<open>page_positions\<close>; the theorems about the skinning
  are stated for any attribute, so they cover those values as well.
\<close>

definition skinned_geometry :: "vec3 list \<Rightarrow> page_geometry" where
  "skinned_geometry positions =
     (let (skinIndexes, skinWeights) = skin_loop positions [] []
      in \<lparr>position = positions,
          skinIndex = Uint16BufferAttribute skinIndexes,
          skinWeight = skinWeights\<rparr>)"

definition pageGeometry :: page_geometry where
  "pageGeometry = skinned_geometry page_positions"

section \<open>Where the vertices lie along the width\<close>

lemma fst_set_coord:
  "fst (set_coord a r p) = (if a = AxisX then r else fst p)"
  by (cases a; cases p) auto

lemma fst_plane_vertex_u:
  "fst (plane_vertex AxisX v w udir vdir width height depth gridX gridY ix iy) =
     (real ix * (width / real gridX) - width / 2) * udir"
  if "v \<noteq> AxisX" "w \<noteq> AxisX"
  using that by (simp add: plane_vertex_def Let_def fst_set_coord)

lemma fst_plane_vertex_w:
  "fst (plane_vertex u v AxisX udir vdir width height depth gridX gridY ix iy) = depth / 2"
  by (simp add: plane_vertex_def Let_def fst_set_coord)

lemma fst_buildPlane_u:
  assumes "v \<noteq> AxisX" "w \<noteq> AxisX" "p \<in> set (buildPlane AxisX v w udir vdir width height depth gridX gridY)"
  shows "\<exists>ix\<le>gridX. fst p = (real ix * (width / real gridX) - width / 2) * udir"
proof -
  from assms(3) obtain ix iy where ix: "ix < Suc gridX"
    and p: "p = plane_vertex AxisX v w udir vdir width height depth gridX gridY ix iy"
    by (auto simp: buildPlane_def simp del: upt_Suc)
  from ix have "ix \<le> gridX" by simp
  with p assms(1,2) show ?thesis by (auto simp: fst_plane_vertex_u)
qed

lemma fst_buildPlane_w:
  assumes "p \<in> set (buildPlane u v AxisX udir vdir width height depth gridX gridY)"
  shows "fst p = depth / 2"
  using assms by (auto simp: buildPlane_def fst_plane_vertex_w simp del: upt_Suc)

text \<open>
  After the translation by \<open>width/2\<close> every vertex of the box lies on one of the
  \<open>n + 1\<close> joints \<open>k * width/n\<close>: the side faces at the two ends, the other faces
  at their grid columns (the back face \<open>nz\<close> runs its columns in reverse).
\<close>

lemma translated_box_on_grid:
  assumes "0 < n"
    and "p \<in> set (translate (w / 2) 0 0 (BoxGeometry w h d n hs ds))"
  shows "\<exists>k\<le>n. fst p = real k * (w / real n)"
proof -
  from assms(2) obtain q where q: "q \<in> set (BoxGeometry w h d n hs ds)"
    and p: "fst p = fst q + w / 2"
    by (auto simp: translate_def)
  have end_w: "w = real n * (w / real n)" using assms(1) by simp
  have rev: "(real ix * (w / real n) - w / 2) * (-1) + w / 2 = real (n - ix) * (w / real n)"
    if "ix \<le> n" for ix
    using that assms(1) by (simp add: of_nat_diff field_simps)
  from q consider
      (px) "q \<in> set (buildPlane AxisZ AxisY AxisX (-1) (-1) d h w ds hs)"
    | (nx) "q \<in> set (buildPlane AxisZ AxisY AxisX 1 (-1) d h (- w) ds hs)"
    | (py) "q \<in> set (buildPlane AxisX AxisZ AxisY 1 1 w d h n ds)"
    | (ny) "q \<in> set (buildPlane AxisX AxisZ AxisY 1 (-1) w d (- h) n ds)"
    | (pz) "q \<in> set (buildPlane AxisX AxisY AxisZ 1 (-1) w h d n hs)"
    | (nz) "q \<in> set (buildPlane AxisX AxisY AxisZ (-1) (-1) w h (- d) n hs)"
    by (auto simp: BoxGeometry_def)
  then show ?thesis
  proof cases
    case px
    then have "fst p = real n * (w / real n)" using p end_w fst_buildPlane_w by fastforce
    then show ?thesis by blast
  next
    case nx
    then have "fst p = real 0 * (w / real n)" using p fst_buildPlane_w by fastforce
    then show ?thesis by blast
  next
    case py
    have "\<exists>ix\<le>n. fst q = (real ix * (w / real n) - w / 2) * 1"
      by (rule fst_buildPlane_u) (use py in simp_all)
    with p show ?thesis by auto
  next
    case ny
    have "\<exists>ix\<le>n. fst q = (real ix * (w / real n) - w / 2) * 1"
      by (rule fst_buildPlane_u) (use ny in simp_all)
    with p show ?thesis by auto
  next
    case pz
    have "\<exists>ix\<le>n. fst q = (real ix * (w / real n) - w / 2) * 1"
      by (rule fst_buildPlane_u) (use pz in simp_all)
    with p show ?thesis by auto
  next
    case nz
    have "\<exists>ix\<le>n. fst q = (real ix * (w / real n) - w / 2) * (-1)"
      by (rule fst_buildPlane_u) (use nz in simp_all)
    then obtain ix where "ix \<le> n" "fst q = (real ix * (w / real n) - w / 2) * (-1)"
      by blast
    then have "fst p = real (n - ix) * (w / real n)" using p rev by simp
    then show ?thesis by (intro exI [of _ "n - ix"]) simp
  qed
qed

section \<open>The skin loop as a map over the vertices\<close>

lemma skin_loop_concat:
  "skin_loop vs idx wts =
     (idx @ concat (map (\<lambda>v. fst (vertex_skin (fst v))) vs),
      wts @ concat (map (\<lambda>v. snd (vertex_skin (fst v))) vs))"
  by (induction vs arbitrary: idx wts) (simp_all add: case_prod_beta)

lemma length_vertex_skin [simp]:
  "length (fst (vertex_skin x)) = 4" "length (snd (vertex_skin x)) = 4"
  by (simp_all add: vertex_skin_def Let_def)

lemma SEGMENT_WIDTH_pos [simp]: "0 < SEGMENT_WIDTH"
  by (simp add: page_consts)

lemma SEGMENT_WIDTH_ge [simp]: "0 \<le> SEGMENT_WIDTH"
  by (simp add: page_consts)

lemma SEGMENT_WIDTH_neq [simp]: "SEGMENT_WIDTH \<noteq> 0"
  by (simp add: page_consts)

lemma length_page_positions: "length page_positions = 322"
  by (simp add: page_positions_def translate_def BoxGeometry_def buildPlane_def
      page_consts length_concat comp_def sum_list_triv)

section \<open>The binding of one vertex\<close>

lemma PAGE_WIDTH_eq: "PAGE_WIDTH = real PAGE_SEGMENTS * SEGMENT_WIDTH"
  by (simp add: page_consts)

lemma vertex_skin_on_joint:
  "vertex_skin (real m * SEGMENT_WIDTH) = ([int m, int m + 1, 0, 0], [1, 0, 0, 0])"
proof -
  have "\<lfloor>real m * SEGMENT_WIDTH / SEGMENT_WIDTH\<rfloor> = int m" by simp
  then show ?thesis by (simp add: vertex_skin_def Let_def)
qed

text \<open>
  Any offset strictly between \<open>-SW\<close> and \<open>PAGE_WIDTH\<close> is bound to two existing
  bones \<open>m, m + 1\<close> with \<open>m < PAGE_SEGMENTS\<close>, and the blend fraction places it
  at \<open>m * SW + w * SW\<close>. For a small negative offset (a \<open>Float32\<close> position just
  left of the spine) it is \<open>Math.max(0, ...)\<close> that keeps \<open>m = 0\<close>; the
  weight is then slightly negative.
\<close>

lemma vertex_skin_blend:
  assumes "- SEGMENT_WIDTH < x" "x < PAGE_WIDTH"
  obtains m w where "m < PAGE_SEGMENTS"
    "vertex_skin x = ([int m, int m + 1, 0, 0], [1 - w, w, 0, 0])"
    "real m * SEGMENT_WIDTH + w * SEGMENT_WIDTH = x"
proof (cases "0 \<le> x")
  case True
  let ?f = "\<lfloor>x / SEGMENT_WIDTH\<rfloor>"
  have f0: "0 \<le> ?f" using True by simp
  have "x / SEGMENT_WIDTH < real PAGE_SEGMENTS"
    using assms(2) by (simp add: PAGE_WIDTH_eq divide_less_eq)
  then have fS: "?f < int PAGE_SEGMENTS" by (simp add: floor_less_iff)
  have "js_rem x SEGMENT_WIDTH = x - SEGMENT_WIDTH * of_int ?f"
    using True by (simp add: js_rem_nonneg_eq)
  then have "real (nat ?f) * SEGMENT_WIDTH + js_rem x SEGMENT_WIDTH / SEGMENT_WIDTH * SEGMENT_WIDTH = x"
    using f0 by simp
  moreover have "vertex_skin x = ([int (nat ?f), int (nat ?f) + 1, 0, 0],
      [1 - js_rem x SEGMENT_WIDTH / SEGMENT_WIDTH, js_rem x SEGMENT_WIDTH / SEGMENT_WIDTH, 0, 0])"
    using f0 by (simp add: vertex_skin_def Let_def)
  moreover have "nat ?f < PAGE_SEGMENTS" using f0 fS by linarith
  ultimately show ?thesis using that by blast
next
  case False
  have q: "-1 < x / SEGMENT_WIDTH" "x / SEGMENT_WIDTH < 0"
    using assms(1) False by (simp_all add: divide_less_eq less_divide_eq)
  then have "\<lfloor>x / SEGMENT_WIDTH\<rfloor> = -1" by (simp add: floor_eq_iff)
  moreover have "js_rem x SEGMENT_WIDTH = x"
    using q by (simp add: js_rem_def js_trunc_def ceiling_eq_iff)
  ultimately have "vertex_skin x = ([int 0, int 0 + 1, 0, 0],
      [1 - x / SEGMENT_WIDTH, x / SEGMENT_WIDTH, 0, 0])"
    by (simp add: vertex_skin_def Let_def)
  moreover have "real 0 * SEGMENT_WIDTH + x / SEGMENT_WIDTH * SEGMENT_WIDTH = x" by simp
  moreover have "0 < PAGE_SEGMENTS" by (simp add: page_consts)
  ultimately show ?thesis using that by blast
qed

text \<open>
  The buffers of a skinned geometry, for any position attribute: four slots per vertex,
  and slot \<open>4k + j\<close> holds the \<open>j\<close>-th index (stored as \<open>Uint16\<close>) and weight
  that the loop body computes for vertex \<open>k\<close>.
\<close>

lemma skinned_geometry_slots:
  assumes "k < length ps" "j < 4"
  shows "skinIndex (skinned_geometry ps) ! (4 * k + j) = word_of_int (fst (vertex_skin (fst (ps ! k))) ! j)"
    "skinWeight (skinned_geometry ps) ! (4 * k + j) = snd (vertex_skin (fst (ps ! k))) ! j"
    "length (skinIndex (skinned_geometry ps)) = 4 * length ps"
    "length (skinWeight (skinned_geometry ps)) = 4 * length ps"
proof -
  let ?I = "concat (map (\<lambda>v. fst (vertex_skin (fst v))) ps)"
  let ?W = "concat (map (\<lambda>v. snd (vertex_skin (fst v))) ps)"
  have f: "skinIndex (skinned_geometry ps) = map word_of_int ?I"
    "skinWeight (skinned_geometry ps) = ?W"
    by (simp_all add: skinned_geometry_def skin_loop_concat Uint16BufferAttribute_def)
  have lI: "length ?I = 4 * length ps" "length ?W = 4 * length ps"
    by (simp_all add: length_concat_blocks [where m = 4])
  have "?I ! (4 * k + j) = fst (vertex_skin (fst (ps ! k))) ! j"
    "?W ! (4 * k + j) = snd (vertex_skin (fst (ps ! k))) ! j"
    using assms by (simp_all add: nth_concat_blocks [where m = 4])
  moreover have "4 * k + j < length ?I" using assms lI by simp
  ultimately show "skinIndex (skinned_geometry ps) ! (4 * k + j) = word_of_int (fst (vertex_skin (fst (ps ! k))) ! j)"
    "skinWeight (skinned_geometry ps) ! (4 * k + j) = snd (vertex_skin (fst (ps ! k))) ! j"
    by (simp_all add: f)
  show "length (skinIndex (skinned_geometry ps)) = 4 * length ps"
    "length (skinWeight (skinned_geometry ps)) = 4 * length ps"
    by (simp_all add: f lI)
qed

text \<open>
  C11: for any offset \<open>x\<close> on the page, not only a joint, the loop body
  binds the vertex to bone \<open>floor(x / SW)\<close>, at most \<open>PAGE_SEGMENTS\<close>, and to the
  next bone; the blend fraction lies in \<open>[0, 1)\<close> and the two weights sum to 1; the
  other two slots are 0; and the second index reaches the non-existent bone
  \<open>PAGE_SEGMENTS + 1\<close> only at the free edge \<open>x = PAGE_WIDTH\<close>, with weight 0 there.
\<close>

theorem vertex_skin_on_page:
  assumes "0 \<le> x" "x \<le> PAGE_WIDTH"
  defines "i \<equiv> fst (vertex_skin x)" and "w \<equiv> snd (vertex_skin x)"
  shows "i ! 0 = \<lfloor>x / SEGMENT_WIDTH\<rfloor> \<and> i ! 1 = i ! 0 + 1 \<and> i ! 2 = 0 \<and> i ! 3 = 0
       \<and> 0 \<le> i ! 0 \<and> i ! 0 \<le> int PAGE_SEGMENTS
       \<and> 0 \<le> w ! 1 \<and> w ! 1 < 1 \<and> w ! 0 + w ! 1 = 1 \<and> w ! 2 = 0 \<and> w ! 3 = 0
       \<and> (i ! 1 = int PAGE_SEGMENTS + 1 \<longrightarrow> x = PAGE_WIDTH \<and> w ! 1 = 0)"
proof -
  have q0: "0 \<le> x / SEGMENT_WIDTH" using assms(1) by (simp add: divide_nonneg_pos)
  have fl0: "0 \<le> \<lfloor>x / SEGMENT_WIDTH\<rfloor>" using q0 by simp
  have "x / SEGMENT_WIDTH \<le> real PAGE_SEGMENTS"
    using assms(2) by (simp add: PAGE_WIDTH_eq divide_le_eq)
  then have flS: "\<lfloor>x / SEGMENT_WIDTH\<rfloor> \<le> int PAGE_SEGMENTS"
    by (metis floor_mono floor_of_nat)
  have rem: "0 \<le> js_rem x SEGMENT_WIDTH \<and> js_rem x SEGMENT_WIDTH < SEGMENT_WIDTH"
    using assms(1) by (intro js_rem_nonneg_bounds) simp_all
  have last: "x = PAGE_WIDTH \<and> js_rem x SEGMENT_WIDTH = 0"
    if "\<lfloor>x / SEGMENT_WIDTH\<rfloor> = int PAGE_SEGMENTS"
  proof -
    from that have "real PAGE_SEGMENTS \<le> x / SEGMENT_WIDTH"
      using of_int_floor_le [of "x / SEGMENT_WIDTH"] by simp
    then have "PAGE_WIDTH \<le> x" by (simp add: PAGE_WIDTH_eq le_divide_eq)
    with assms(2) have "x = real PAGE_SEGMENTS * SEGMENT_WIDTH"
      by (simp add: PAGE_WIDTH_eq)
    then show ?thesis by (simp add: PAGE_WIDTH_eq)
  qed
  show ?thesis
    using fl0 flS rem last
    by (auto simp: i_def w_def vertex_skin_def Let_def max_def)
qed

section \<open>The shared page geometry\<close>

lemma pageGeometry_fields:
  "position pageGeometry = page_positions"
  "skinIndex pageGeometry =
     Uint16BufferAttribute (concat (map (\<lambda>v. fst (vertex_skin (fst v))) page_positions))"
  "skinWeight pageGeometry = concat (map (\<lambda>v. snd (vertex_skin (fst v))) page_positions)"
  by (simp_all add: pageGeometry_def skinned_geometry_def skin_loop_concat)

lemma page_positions_on_joints:
  assumes "p \<in> set page_positions"
  shows "\<exists>m\<le>PAGE_SEGMENTS. fst p = real m * SEGMENT_WIDTH"
proof -
  have "SEGMENT_WIDTH = PAGE_WIDTH / real PAGE_SEGMENTS" by (simp add: page_consts)
  moreover have "\<exists>m\<le>PAGE_SEGMENTS. fst p = real m * (PAGE_WIDTH / real PAGE_SEGMENTS)"
    by (rule translated_box_on_grid) (use assms in \<open>simp_all add: page_positions_def page_consts\<close>)
  ultimately show ?thesis by simp
qed

lemma skin_blocks_at_joint:
  assumes "k < length page_positions" "fst (page_positions ! k) = real m * SEGMENT_WIDTH"
  shows "take 4 (drop (4 * k) (skinIndex pageGeometry)) = [of_nat m, of_nat m + 1, 0, 0]
       \<and> take 4 (drop (4 * k) (skinWeight pageGeometry)) = [1, 0, 0, 0]"
proof -
  have idx: "take 4 (drop (4 * k) (concat (map (\<lambda>v. fst (vertex_skin (fst v))) page_positions)))
             = [int m, int m + 1, 0, 0]"
    using assms by (subst block_concat_blocks) (simp_all add: vertex_skin_on_joint)
  have wts: "take 4 (drop (4 * k) (concat (map (\<lambda>v. snd (vertex_skin (fst v))) page_positions)))
             = [1, 0, 0, 0]"
    using assms by (subst block_concat_blocks) (simp_all add: vertex_skin_on_joint)
  from idx wts show ?thesis
    by (simp add: pageGeometry_fields Uint16BufferAttribute_def take_map drop_map)
qed

lemma joint_vertex_exists:
  assumes "m \<le> PAGE_SEGMENTS"
  shows "\<exists>p\<in>set page_positions. fst p = real m * SEGMENT_WIDTH"
proof -
  let ?q = "plane_vertex AxisX AxisY AxisZ 1 (-1) PAGE_WIDTH PAGE_HEIGHT PAGE_DEPTH
              PAGE_SEGMENTS 2 m 0"
  have "?q \<in> set (buildPlane AxisX AxisY AxisZ 1 (-1) PAGE_WIDTH PAGE_HEIGHT PAGE_DEPTH
              PAGE_SEGMENTS 2)"
    using assms unfolding buildPlane_def by (auto simp del: upt_Suc intro!: bexI [where x = 0])
  then have "?q \<in> set (BoxGeometry PAGE_WIDTH PAGE_HEIGHT PAGE_DEPTH PAGE_SEGMENTS 2 1)"
    by (simp add: BoxGeometry_def)
  then have "(fst ?q + PAGE_WIDTH / 2, fst (snd ?q), snd (snd ?q)) \<in> set page_positions"
    by (force simp: page_positions_def translate_def)
  moreover have "fst ?q + PAGE_WIDTH / 2 = real m * SEGMENT_WIDTH"
    by (simp add: fst_plane_vertex_u page_consts)
  ultimately show ?thesis by force
qed

lemma first_vertex_free_edge:
  "0 < length page_positions \<and> fst (page_positions ! 0) = real PAGE_SEGMENTS * SEGMENT_WIDTH"
  by (simp add: page_positions_def translate_def BoxGeometry_def buildPlane_def
      plane_vertex_def page_consts upt_rec)

section \<open>Properties of the shared geometry\<close>

text \<open>
  C12: after the translation the geometry spans exactly
  \<open>[0, PAGE_WIDTH]\<close> along the width: no vertex lies outside, and every joint
  \<open>m * SEGMENT_WIDTH\<close> (\<open>0\<close> and \<open>PAGE_WIDTH\<close> among them) carries a vertex.
\<close>

theorem pageGeometry_width_span:
  "(\<forall>p\<in>set (position pageGeometry). 0 \<le> fst p \<and> fst p \<le> PAGE_WIDTH)
   \<and> (\<forall>m\<le>PAGE_SEGMENTS. \<exists>p\<in>set (position pageGeometry). fst p = real m * SEGMENT_WIDTH)"
proof (intro conjI ballI allI impI)
  fix p assume "p \<in> set (position pageGeometry)"
  then have "p \<in> set page_positions" by (simp add: pageGeometry_fields)
  then obtain m where "m \<le> PAGE_SEGMENTS" "fst p = real m * SEGMENT_WIDTH"
    using page_positions_on_joints by blast
  then show "0 \<le> fst p" "fst p \<le> PAGE_WIDTH"
    by (simp_all add: PAGE_WIDTH_eq)
next
  fix m assume "m \<le> PAGE_SEGMENTS"
  then show "\<exists>p\<in>set (position pageGeometry). fst p = real m * SEGMENT_WIDTH"
    using joint_vertex_exists by (simp add: pageGeometry_fields)
qed

section \<open>Witnesses\<close>

theorem vertex_skin_on_page_witness:
  "0 \<le> SEGMENT_WIDTH / 2 \<and> SEGMENT_WIDTH / 2 \<le> PAGE_WIDTH
   \<and> fst (vertex_skin (SEGMENT_WIDTH / 2)) ! 1 = fst (vertex_skin (SEGMENT_WIDTH / 2)) ! 0 + 1
   \<and> snd (vertex_skin (SEGMENT_WIDTH / 2)) ! 1 < 1"
proof -
  have h: "0 \<le> SEGMENT_WIDTH / 2" "SEGMENT_WIDTH / 2 \<le> PAGE_WIDTH"
    by (simp_all add: page_consts)
  from vertex_skin_on_page [OF h] h show ?thesis by blast
qed

lemma length_position_pageGeometry: "length (position pageGeometry) = 322"
  by (simp add: pageGeometry_fields length_page_positions)

theorem pageGeometry_width_span_witness:
  "0 \<le> fst (position pageGeometry ! 0) \<and> fst (position pageGeometry ! 0) \<le> PAGE_WIDTH
   \<and> (\<exists>p\<in>set (position pageGeometry). fst p = real PAGE_SEGMENTS * SEGMENT_WIDTH)"
proof -
  have mem: "position pageGeometry ! 0 \<in> set (position pageGeometry)"
    by (rule nth_mem) (simp add: length_position_pageGeometry)
  from pageGeometry_width_span mem show ?thesis by blast
qed

end
