(* ===== verification/Page_Mesh.thy ===== *)
theory Page_Mesh
  imports Page_Geometry
begin

text \<open>
  What one \<open>Page\<close> instance builds when it mounts (\<open>Book.jsx\<close>, lines 25--31 and
  96--148): its two textures with their colour space set to sRGB, its own chain of
  \<open>PAGE_SEGMENTS + 1\<close> bones, its six materials (four shared plain ones and two that carry
  its textures) and the skinned mesh that binds the shared geometry to the chain. The bones
  form an arena: each bone records the index of its parent instead of a live reference.
  The theory also gives the world position of each joint as three.js computes it from the
  parent chain, to show what the chain means geometrically.
\<close>

section \<open>Textures\<close>

datatype color_space = NoColorSpace | SRGBColorSpace

record texture =
  tex_src :: string
  colorSpace :: color_space
  needsUpdate :: bool

text \<open>Lines 25--31: a missing texture (\<open>undefined\<close>) is left alone.\<close>

definition setTextureColorSpace :: "texture option \<Rightarrow> color_space \<Rightarrow> texture option" where
  "setTextureColorSpace tex cs =
     (case tex of None \<Rightarrow> None
      | Some t \<Rightarrow> Some (t\<lparr>colorSpace := cs, needsUpdate := True\<rparr>))"

text \<open>The path convention of lines 92--93 and 98--99: \<open>/textures/${id}.jpg\<close>.\<close>

definition texture_path :: "string \<Rightarrow> string" where
  "texture_path name = ''/textures/'' @ name @ ''.jpg''"

text \<open>
  \<open>useTexture\<close> of drei, an external loader: once loaded, a fresh texture for the path,
  with three.js's default (empty) colour space.
\<close>

definition useTexture :: "string \<Rightarrow> texture option" where
  "useTexture path = Some \<lparr>tex_src = path, colorSpace = NoColorSpace, needsUpdate = False\<rparr>"

text \<open>Lines 97--104: load front and back, then set both to sRGB.\<close>

definition page_pictures :: "string \<Rightarrow> string \<Rightarrow> texture option \<times> texture option" where
  "page_pictures front back =
     (let picture = useTexture (texture_path front);
          picture2 = useTexture (texture_path back)
      in (setTextureColorSpace picture SRGBColorSpace, setTextureColorSpace picture2 SRGBColorSpace))"

section \<open>Materials\<close>

record material =
  mat_color :: string
  mat_map :: "texture option"
  mat_roughness :: real
  mat_envMapIntensity :: real

text \<open>\<open>new MeshStandardMaterial({color: "#fff"})\<close>: three.js defaults elsewhere.\<close>

definition plain_material :: material where
  "plain_material = \<lparr>mat_color = ''#fff'', mat_map = None, mat_roughness = 1,
                     mat_envMapIntensity = 1\<rparr>"

text \<open>Lines 76--89: the four module-level materials every page shares.\<close>

definition pageMaterials :: "material list" where
  "pageMaterials = [plain_material, plain_material, plain_material, plain_material]"

text \<open>Lines 126--140: the shared four, then one material per side carrying its picture.\<close>

definition page_materials_of :: "texture option \<Rightarrow> texture option \<Rightarrow> material list" where
  "page_materials_of picture picture2 =
     pageMaterials @
     [\<lparr>mat_color = ''#fff'', mat_map = picture, mat_roughness = 1, mat_envMapIntensity = 0.2\<rparr>,
      \<lparr>mat_color = ''#fff'', mat_map = picture2, mat_roughness = 1, mat_envMapIntensity = 0.2\<rparr>]"

section \<open>Bones\<close>

datatype bone_parent = NoParent | MeshParent | BoneParent nat

text \<open>
  A three.js \<open>Bone\<close> reduced to what the page uses: its parent, its local
  \<open>position.x\<close>, its \<open>rotation.y\<close> and the velocity maath's damping keeps on that
  rotation (\<open>rotation.__damp.velocity_y\<close>).
\<close>

record bone =
  parent :: bone_parent
  position_x :: real
  rotation_y :: angle
  velocity_y :: real

definition new_Bone :: bone where
  "new_Bone = \<lparr>parent = NoParent, position_x = 0, rotation_y = 0, velocity_y = 0\<rparr>"

text \<open>
  Lines 110--123: \<open>for (let i = 0; i <= PAGE_SEGMENTS; i++)\<close> pushes a new bone, sets
  its \<open>position.x\<close> (0 for the root, \<open>SEGMENT_WIDTH\<close> otherwise) and makes it a child
  of the previous bone. The pushed bone is the object at index \<open>length bones\<close>.
\<close>

function bones_loop :: "nat \<Rightarrow> bone list \<Rightarrow> bone list" where
  "bones_loop i bones =
     (if i \<le> PAGE_SEGMENTS then
        (let j = length bones;
             bones1 = bones @ [new_Bone];
             bones2 = bones1[j := (bones1 ! j)\<lparr>position_x := (if i = 0 then 0 else SEGMENT_WIDTH)\<rparr>];
             bones3 = (if 0 < i then bones2[j := (bones2 ! j)\<lparr>parent := BoneParent (i - 1)\<rparr>]
                       else bones2)
         in bones_loop (Suc i) bones3)
      else bones)"
  by pat_completeness auto
termination
  by (relation "measure (\<lambda>(i, _). Suc PAGE_SEGMENTS - i)") auto

text \<open>The bone the loop pushes in iteration \<open>k\<close>, once its fields are set.\<close>

definition chain_bone :: "nat \<Rightarrow> bone" where
  "chain_bone k = new_Bone\<lparr>position_x := (if k = 0 then 0 else SEGMENT_WIDTH),
                          parent := (if 0 < k then BoneParent (k - 1) else NoParent)\<rparr>"

section \<open>The skinned mesh\<close>

record skinned_mesh =
  geometry :: page_geometry
  materials :: "material list"
  skeleton :: "bone list"
  castShadow :: bool
  receiveShadow :: bool
  frustumCulled :: bool
  expando :: "(string \<times> bool) list"

text \<open>
  \<open>new SkinnedMesh(geometry, materials)\<close>: no skeleton bound yet, three.js's defaults
  for the flags. \<open>expando\<close> records properties a script adds that three.js does not
  define.
\<close>

definition SkinnedMesh :: "page_geometry \<Rightarrow> material list \<Rightarrow> skinned_mesh" where
  "SkinnedMesh g ms = \<lparr>geometry = g, materials = ms, skeleton = [], castShadow = False,
                       receiveShadow = False, frustumCulled = True, expando = []\<rparr>"

text \<open>
  Lines 109--148 (\<open>useMemo\<close>): the chain, the materials, the mesh and its flags; the
  assignment \<open>mesh.frustcumCulled = false\<close> creates a new property;
  \<open>mesh.add(skeleton.bones[0])\<close> parents the root bone to the mesh and
  \<open>mesh.bind(skeleton)\<close> binds the chain.
\<close>

definition manualSkinnedMesh :: "texture option \<Rightarrow> texture option \<Rightarrow> skinned_mesh" where
  "manualSkinnedMesh picture picture2 =
     (let bones = bones_loop 0 [];
          mats = page_materials_of picture picture2;
          mesh = SkinnedMesh pageGeometry mats;
          mesh = mesh\<lparr>castShadow := True, receiveShadow := True,
                      expando := expando mesh @ [(''frustcumCulled'', False)]\<rparr>;
          bones = bones[0 := (bones ! 0)\<lparr>parent := MeshParent\<rparr>]
      in mesh\<lparr>skeleton := bones\<rparr>)"

section \<open>World positions of the joints\<close>

text \<open>
  three.js's \<open>updateMatrixWorld\<close> for a chain of bones that only rotate about
  \<open>y\<close>: a joint sits at its parent's joint plus its local offset turned by the parent's
  accumulated angle (\<open>R_y(a) (x, 0, 0) = (x cos a, 0, -x sin a)\<close>), and its own angle
  adds to that. The result is \<open>(x, z, accumulated angle)\<close> in the mesh's frame.
\<close>

function joint_world :: "bone list \<Rightarrow> nat \<Rightarrow> real \<times> real \<times> angle" where
  "joint_world bs i =
     (if i < length bs then
        (case parent (bs ! i) of
           BoneParent j \<Rightarrow>
             (if j < i then
                (let (px, pz, pa) = joint_world bs j
                 in (px + position_x (bs ! i) * cos pa, pz - position_x (bs ! i) * sin pa,
                     pa + rotation_y (bs ! i)))
              else (position_x (bs ! i), 0, rotation_y (bs ! i)))
         | _ \<Rightarrow> (position_x (bs ! i), 0, rotation_y (bs ! i)))
      else (0, 0, 0))"
  by pat_completeness auto
termination
  by (relation "measure (\<lambda>(bs, i). i)") auto

text \<open>The shape of a page's chain: what every well-formed skeleton looks like.\<close>

definition chain_wf :: "bone list \<Rightarrow> bool" where
  "chain_wf bs \<longleftrightarrow> length bs = Suc PAGE_SEGMENTS
     \<and> parent (bs ! 0) = MeshParent \<and> position_x (bs ! 0) = 0
     \<and> (\<forall>i\<in>{1..PAGE_SEGMENTS}. parent (bs ! i) = BoneParent (i - 1)
                               \<and> position_x (bs ! i) = SEGMENT_WIDTH)"

section \<open>The bone loop\<close>

declare bones_loop.simps [simp del]

lemma bones_loop_step:
  "i \<le> PAGE_SEGMENTS \<Longrightarrow> bones_loop i bones = bones_loop (Suc i) (bones @ [chain_bone i])"
  by (subst bones_loop.simps) (simp add: chain_bone_def new_Bone_def Let_def)

lemma bones_loop_eq:
  "bones_loop i bones = bones @ map chain_bone [i..<Suc PAGE_SEGMENTS]"
proof (induction "Suc PAGE_SEGMENTS - i" arbitrary: i bones)
  case 0
  then have "\<not> i \<le> PAGE_SEGMENTS" by simp
  then show ?case by (subst bones_loop.simps) simp
next
  case (Suc n)
  then have i: "i \<le> PAGE_SEGMENTS" and n: "n = Suc PAGE_SEGMENTS - Suc i" by simp_all
  have "[i..<Suc PAGE_SEGMENTS] = i # [Suc i..<Suc PAGE_SEGMENTS]"
    using i by (simp add: upt_conv_Cons del: upt_Suc)
  with i Suc.hyps(1) [OF n] show ?case by (simp add: bones_loop_step del: upt_Suc)
qed

lemma skeleton_manualSkinnedMesh:
  "skeleton (manualSkinnedMesh picture picture2) =
     (map chain_bone [0..<Suc PAGE_SEGMENTS])[0 := (chain_bone 0)\<lparr>parent := MeshParent\<rparr>]"
  by (simp add: manualSkinnedMesh_def Let_def bones_loop_eq SkinnedMesh_def del: upt_Suc)

lemma nth_skeleton_manualSkinnedMesh:
  assumes "i \<le> PAGE_SEGMENTS"
  shows "skeleton (manualSkinnedMesh picture picture2) ! i =
           (if i = 0 then (chain_bone 0)\<lparr>parent := MeshParent\<rparr> else chain_bone i)"
  using assms by (simp add: skeleton_manualSkinnedMesh nth_list_update del: upt_Suc)

section \<open>The chain as three.js places it\<close>

declare joint_world.simps [simp del]

lemma joint_world_child:
  assumes "chain_wf bs" "0 < i" "i \<le> PAGE_SEGMENTS"
  shows "joint_world bs i =
           (let (px, pz, pa) = joint_world bs (i - 1)
            in (px + SEGMENT_WIDTH * cos pa, pz - SEGMENT_WIDTH * sin pa, pa + rotation_y (bs ! i)))"
proof -
  have "parent (bs ! i) = BoneParent (i - 1)" "position_x (bs ! i) = SEGMENT_WIDTH"
    "i < length bs"
    using assms by (auto simp: chain_wf_def)
  with assms(2) show ?thesis by (subst joint_world.simps) simp
qed

lemma joint_world_root:
  assumes "chain_wf bs"
  shows "joint_world bs 0 = (0, 0, rotation_y (bs ! 0))"
  using assms by (subst joint_world.simps) (simp add: chain_wf_def)

lemma manual_skeleton_wf: "chain_wf (skeleton (manualSkinnedMesh picture picture2))"
proof -
  have "length (skeleton (manualSkinnedMesh picture picture2)) = Suc PAGE_SEGMENTS"
    by (simp add: skeleton_manualSkinnedMesh del: upt_Suc)
  then show ?thesis
    unfolding chain_wf_def using nth_skeleton_manualSkinnedMesh
    by (auto simp: chain_bone_def new_Bone_def)
qed

lemma manual_skeleton_at_rest:
  "i \<le> PAGE_SEGMENTS \<Longrightarrow> rotation_y (skeleton (manualSkinnedMesh picture picture2) ! i) = 0
     \<and> velocity_y (skeleton (manualSkinnedMesh picture picture2) ! i) = 0"
  using nth_skeleton_manualSkinnedMesh by (simp add: chain_bone_def new_Bone_def)

lemma chain_rest_joint:
  assumes "chain_wf bs" "\<forall>k\<le>PAGE_SEGMENTS. rotation_y (bs ! k) = 0" "i \<le> PAGE_SEGMENTS"
  shows "joint_world bs i = (real i * SEGMENT_WIDTH, 0, 0)"
  using assms(3)
proof (induction i)
  case 0
  then show ?case using joint_world_root [OF assms(1)] assms(2) by simp
next
  case (Suc i)
  then have "joint_world bs i = (real i * SEGMENT_WIDTH, 0, 0)" by simp
  with joint_world_child [OF assms(1), of "Suc i"] Suc.prems assms(2) show ?case
    by (simp add: algebra_simps)
qed

section \<open>Properties of a page's mesh\<close>

text \<open>
  C14: the mesh a page builds carries a well-formed chain of
  \<open>PAGE_SEGMENTS + 1\<close> bones (the root parented to the mesh at offset 0, every other
  bone a child of the previous one at offset \<open>SEGMENT_WIDTH\<close>), every bone at rest:
  rotation 0 and no damping velocity.
\<close>

theorem manualSkinnedMesh_chain:
  "chain_wf (skeleton (manualSkinnedMesh picture picture2))
   \<and> (\<forall>i\<le>PAGE_SEGMENTS. rotation_y (skeleton (manualSkinnedMesh picture picture2) ! i) = 0
        \<and> velocity_y (skeleton (manualSkinnedMesh picture picture2) ! i) = 0)"
  using manual_skeleton_wf manual_skeleton_at_rest by blast

section \<open>Witnesses\<close>

theorem manualSkinnedMesh_chain_witness:
  "rotation_y (skeleton (manualSkinnedMesh None None) ! PAGE_SEGMENTS) = 0"
  using manualSkinnedMesh_chain [of None None] by blast

end
