(* ===== verification/Maath_Easing.thy ===== *)
theory Maath_Easing
  imports Book_Prelude
begin

text \<open>
  The easing that \<open>Book.jsx\<close> calls on every bone and every frame:
  \<open>easing.dampAngle\<close> of the \<open>maath\<close> library, a critically damped spring (the
  SmoothDamp of game engines) that keeps a velocity beside the value it eases.
  \<open>dampAngle\<close> first moves the target to the representative nearest to the current
  angle (\<open>deltaAngle\<close>, \<open>repeat\<close>) and then calls \<open>damp\<close>. The library is not
  part of the repository; the definitions follow its published source, with the
  defaults the call in \<open>Book.jsx\<close> leaves in place: \<open>maxSpeed = Infinity\<close>
  (\<open>None\<close> here), the rational \<open>exp\<close> approximation as easing and
  \<open>eps = 0.001\<close>. The velocity lives on the eased object as
  \<open>__damp.velocity_<prop>\<close>; it starts \<open>undefined\<close> and is set to 0 before its
  first use, which is modelled as an initial 0.
\<close>

section \<open>Definitions\<close>

text \<open>\<open>exp = t => 1 / (1 + t + 0.48 t^2 + 0.235 t^3)\<close>, the decay factor over one frame.\<close>

definition maath_exp :: "real \<Rightarrow> real" where
  "maath_exp t = 1 / (1 + t + 0.48 * t * t + 0.235 * t * t * t)"

definition damp_eps :: real where "damp_eps = 0.001"

text \<open>
  \<open>damp(current, prop, target, smoothTime, delta, maxSpeed, easing, eps)\<close> on the
  value \<open>current\<close> and its velocity \<open>vel\<close>; the result is the returned boolean
  with the new value and velocity. Within \<open>eps\<close> of the target the value snaps to it
  and the velocity is left as it was. Otherwise one step of the spring is taken, and an
  output that passes the target is replaced by the target with velocity
  \<open>(output - originalTo) / delta\<close>, i.e. 0.
\<close>

definition damp ::
  "real \<Rightarrow> real \<Rightarrow> real \<Rightarrow> real \<Rightarrow> real \<Rightarrow> real option \<Rightarrow> real \<Rightarrow> bool \<times> real \<times> real" where
  "damp current vel target smoothTime delta maxSpeed eps =
     (if \<bar>current - target\<bar> \<le> eps then (False, target, vel)
      else
        let smoothTime' = max 0.0001 smoothTime;
            omega = 2 / smoothTime';
            t = maath_exp (omega * delta);
            change0 = current - target;
            originalTo = target;
            change = (case maxSpeed of None \<Rightarrow> change0
                      | Some ms \<Rightarrow> min (max change0 (- (ms * smoothTime'))) (ms * smoothTime'));
            target' = current - change;
            temp = (vel + omega * change) * delta;
            vel' = (vel - omega * temp) * t;
            output = target' + (change + temp) * t
        in if (0 < originalTo - current) = (originalTo < output)
           then (True, originalTo, (originalTo - originalTo) / delta)
           else (True, output, vel'))"

text \<open>\<open>repeat(t, length)\<close>: \<open>t\<close> wrapped into \<open>[0, length]\<close>.\<close>

definition repeat :: "real \<Rightarrow> real \<Rightarrow> real" where
  "repeat t len = js_clamp (t - of_int \<lfloor>t / len\<rfloor> * len) 0 len"

text \<open>\<open>deltaAngle(current, target)\<close>: the signed angle from \<open>current\<close> to \<open>target\<close>.\<close>

definition deltaAngle :: "angle \<Rightarrow> angle \<Rightarrow> angle" where
  "deltaAngle current target =
     (let delta = repeat (target - current) (pi * 2)
      in if pi < delta then delta - pi * 2 else delta)"

definition dampAngle ::
  "angle \<Rightarrow> real \<Rightarrow> angle \<Rightarrow> real \<Rightarrow> real \<Rightarrow> real option \<Rightarrow> real \<Rightarrow> bool \<times> angle \<times> real" where
  "dampAngle current vel target smoothTime delta maxSpeed eps =
     damp current vel (current + deltaAngle current target) smoothTime delta maxSpeed eps"

text \<open>
  The state of an eased coordinate relative to a fixed target: \<open>c\<close> is the offset
  \<open>current - target\<close>, \<open>v\<close> the stored velocity. A state is \<^emph>\<open>consistent\<close> when
  the velocity points towards the target but is not so large that the spring crosses it:
  this is what a state reached from rest keeps.
\<close>

definition damp_consistent :: "real \<Rightarrow> real \<Rightarrow> real \<Rightarrow> bool" where
  "damp_consistent omega c v \<longleftrightarrow>
     (0 \<le> c \<and> v \<le> 0 \<and> 0 \<le> v + omega * c) \<or> (c \<le> 0 \<and> 0 \<le> v \<and> v + omega * c \<le> 0)"


text \<open>
  The per-frame step of one eased angle as \<open>Book.jsx\<close> performs it
  (\<open>smoothTime = 0.5\<close>, default \<open>maxSpeed\<close> and \<open>eps\<close>), the contraction
  factor of one such step, and the invariant a run from rest keeps.
\<close>

definition damp_rate :: "real \<Rightarrow> real" where
  "damp_rate delta = (1 + 4 * delta) * maath_exp (4 * delta)"

definition dampAngle_step :: "angle \<Rightarrow> real \<Rightarrow> angle \<times> real \<Rightarrow> angle \<times> real" where
  "dampAngle_step target delta s =
     snd (dampAngle (fst s) (snd s) target 0.5 delta None damp_eps)"

definition damp_inv :: "angle \<Rightarrow> angle \<times> real \<Rightarrow> bool" where
  "damp_inv target s \<longleftrightarrow> \<bar>fst s - target\<bar> < pi
     \<and> (fst s = target \<or> damp_consistent 4 (fst s - target) (snd s))"

text \<open>
  The stored velocity of such a run stays within what the spring can produce from the
  current offset, or from an offset within \<open>eps\<close> for the velocity a snap leaves behind.
\<close>

definition damp_vel_ok :: "angle \<Rightarrow> angle \<times> real \<Rightarrow> bool" where
  "damp_vel_ok target s \<longleftrightarrow> \<bar>snd s\<bar> \<le> 4 * max \<bar>fst s - target\<bar> damp_eps"

text \<open>
  One step of the spring without the snap and the overshoot clamp, on the offset from the
  target and the velocity (\<open>omega = 4\<close>): the linear map that \<open>damp\<close> applies
  between those two events.
\<close>

definition spring_lin :: "real \<Rightarrow> real \<times> real \<Rightarrow> real \<times> real" where
  "spring_lin delta s =
     (let c = fst s; v = snd s; t = maath_exp (4 * delta); temp = (v + 4 * c) * delta
      in ((c + temp) * t, (v - 4 * temp) * t))"

section \<open>One step of the spring\<close>

lemma maath_exp_pos: "0 \<le> x \<Longrightarrow> 0 < maath_exp x"
  unfolding maath_exp_def by (simp add: add_pos_nonneg)

lemma maath_exp_contracts:
  assumes "0 < x" shows "(1 + x) * maath_exp x < 1"
proof -
  have d: "1 + x < 1 + x + 0.48 * x * x + 0.235 * x * x * x"
    using assms by (simp add: add_pos_pos)
  have "0 < 1 + x" using assms by simp
  with d show ?thesis unfolding maath_exp_def by (simp add: field_simps)
qed

lemma spring_step_pos:
  fixes c v omega delta :: real
  assumes om: "0 < omega" and dl: "0 < delta" and c: "0 < c" and v: "v \<le> 0"
    and vw: "0 \<le> v + omega * c"
  defines "t \<equiv> maath_exp (omega * delta)" and "temp \<equiv> (v + omega * c) * delta"
  shows "0 < (c + temp) * t \<and> (c + temp) * t \<le> (1 + omega * delta) * t * c
       \<and> (v - omega * temp) * t \<le> 0 \<and> 0 \<le> (v - omega * temp) * t + omega * ((c + temp) * t)"
proof -
  have t: "0 < t" unfolding t_def using om dl by (intro maath_exp_pos) simp
  have tmp: "0 \<le> temp" unfolding temp_def using vw dl by simp
  have up: "c + temp \<le> (1 + omega * delta) * c"
  proof -
    have "v * delta \<le> 0" using v dl by (simp add: mult_nonpos_nonneg)
    then show ?thesis unfolding temp_def by (simp add: algebra_simps)
  qed
  have vneg: "v - omega * temp < 0"
  proof (cases "omega * delta \<le> 1")
    case True
    have "v * (1 - omega * delta) \<le> 0" using v True by (simp add: mult_nonpos_nonneg)
    moreover have "0 < omega * omega * c * delta" using om c dl by simp
    moreover have "v - omega * temp = v * (1 - omega * delta) - omega * omega * c * delta"
      unfolding temp_def by (simp add: algebra_simps)
    ultimately show ?thesis by linarith
  next
    case False
    have "- (omega * c) * (omega * delta - 1) \<le> v * (omega * delta - 1)"
      using vw False by (intro mult_right_mono) simp_all
    moreover have "v - omega * temp = - (v * (omega * delta - 1)) - omega * omega * c * delta"
      unfolding temp_def by (simp add: algebra_simps)
    moreover have "0 < omega * c" using om c by simp
    ultimately have "v - omega * temp \<le> omega * c * (omega * delta - 1) - omega * omega * c * delta"
      by (simp add: algebra_simps)
    also have "\<dots> = - (omega * c)" by (simp add: algebra_simps)
    finally show ?thesis using \<open>0 < omega * c\<close> by linarith
  qed
  have sum: "(v - omega * temp) * t + omega * ((c + temp) * t) = (v + omega * c) * t"
    by (simp add: algebra_simps)
  show ?thesis
  proof (intro conjI)
    show "0 < (c + temp) * t" using c tmp t by simp
    show "(c + temp) * t \<le> (1 + omega * delta) * t * c"
      using mult_right_mono [OF up less_imp_le [OF t]] by (simp add: algebra_simps)
    show "(v - omega * temp) * t \<le> 0" using vneg t by (simp add: mult_nonpos_nonneg)
    show "0 \<le> (v - omega * temp) * t + omega * ((c + temp) * t)"
      unfolding sum using vw t by simp
  qed
qed

lemma damp_far:
  fixes current target vel smoothTime delta eps :: real
  assumes "eps < \<bar>current - target\<bar>"
  defines "omega \<equiv> 2 / max 0.0001 smoothTime"
  defines "t \<equiv> maath_exp (omega * delta)"
  defines "temp \<equiv> (vel + omega * (current - target)) * delta"
  defines "c' \<equiv> (current - target + temp) * t"
  shows "damp current vel target smoothTime delta None eps =
     (if (0 < target - current) = (0 < c') then (True, target, 0)
      else (True, target + c', (vel - omega * temp) * t))"
proof -
  have ne: "\<not> \<bar>current - target\<bar> \<le> eps" using assms(1) by simp
  have out: "current - (current - target) + (current - target + temp) * t = target + c'"
    by (simp add: c'_def)
  have cmp: "(target < target + c') = (0 < c')" by simp
  show ?thesis
    unfolding damp_def Let_def omega_def [symmetric] t_def [symmetric] temp_def [symmetric]
    using ne by (simp only: if_False option.case temp_def [symmetric] out cmp diff_self div_0)
qed

lemma damp_step_consistent:
  assumes dl: "0 < delta" and eps: "0 < eps"
    and cons: "damp_consistent 4 (current - target) vel"
    and res: "damp current vel target 0.5 delta None eps = (b, current', vel')"
  shows "(current' = target \<and> (vel' = 0 \<or> (\<bar>current - target\<bar> \<le> eps \<and> vel' = vel)))
     \<or> (damp_consistent 4 (current' - target) vel'
        \<and> \<bar>current' - target\<bar> \<le> (1 + 4 * delta) * maath_exp (4 * delta) * \<bar>current - target\<bar>
        \<and> 0 < (current' - target) * (current - target))"
proof (cases "\<bar>current - target\<bar> \<le> eps")
  case True
  with res show ?thesis by (simp add: damp_def)
next
  case False
  let ?c = "current - target" and ?t = "maath_exp (4 * delta)"
  let ?temp = "(vel + 4 * ?c) * delta"
  have om: "2 / max 0.0001 (0.5::real) = 4" by simp
  have unf: "damp current vel target 0.5 delta None eps =
     (if (0 < target - current) = (0 < (?c + ?temp) * ?t) then (True, target, 0)
      else (True, target + (?c + ?temp) * ?t, (vel - 4 * ?temp) * ?t))"
    using damp_far [of eps current target vel "0.5" delta] False by (simp only: om not_le)
  consider (pos) "0 < ?c" | (neg) "?c < 0" using False eps by linarith
  then show ?thesis
  proof cases
    case pos
    with cons have "vel \<le> 0" "0 \<le> vel + 4 * ?c" by (auto simp: damp_consistent_def)
    from spring_step_pos [OF _ dl pos this] have s:
      "0 < (?c + ?temp) * ?t \<and> (?c + ?temp) * ?t \<le> (1 + 4 * delta) * ?t * ?c
       \<and> (vel - 4 * ?temp) * ?t \<le> 0 \<and> 0 \<le> (vel - 4 * ?temp) * ?t + 4 * ((?c + ?temp) * ?t)"
      by simp
    with pos unf res show ?thesis
      by (auto simp: damp_consistent_def abs_of_pos)
  next
    case neg
    with cons have "0 \<le> vel" "vel + 4 * ?c \<le> 0" by (auto simp: damp_consistent_def)
    then have "- vel \<le> 0" "0 \<le> - vel + 4 * (- ?c)" by simp_all
    from spring_step_pos [OF _ dl _ this] neg have s:
      "0 < (- ?c + (- vel + 4 * - ?c) * delta) * ?t
       \<and> (- ?c + (- vel + 4 * - ?c) * delta) * ?t \<le> (1 + 4 * delta) * ?t * - ?c
       \<and> (- vel - 4 * ((- vel + 4 * - ?c) * delta)) * ?t \<le> 0
       \<and> 0 \<le> (- vel - 4 * ((- vel + 4 * - ?c) * delta)) * ?t
              + 4 * ((- ?c + (- vel + 4 * - ?c) * delta) * ?t)"
      by simp
    have e1: "(- ?c + (- vel + 4 * - ?c) * delta) * ?t = - ((?c + ?temp) * ?t)"
      by (simp add: algebra_simps)
    have e2: "(- vel - 4 * ((- vel + 4 * - ?c) * delta)) * ?t = - ((vel - 4 * ?temp) * ?t)"
      by (simp add: algebra_simps)
    from s have s': "(?c + ?temp) * ?t < 0 \<and> - ((?c + ?temp) * ?t) \<le> (1 + 4 * delta) * ?t * - ?c
       \<and> 0 \<le> (vel - 4 * ?temp) * ?t \<and> (vel - 4 * ?temp) * ?t + 4 * ((?c + ?temp) * ?t) \<le> 0"
      unfolding e1 e2 by linarith
    with neg unf res show ?thesis
      by (auto simp: damp_consistent_def abs_of_neg mult_neg_neg)
  qed
qed

lemma repeat_eq:
  assumes "0 < len"
  shows "repeat x len = x - of_int \<lfloor>x / len\<rfloor> * len
         \<and> 0 \<le> repeat x len \<and> repeat x len < len"
  using floor_div_bounds [OF assms, of x] by (simp add: repeat_def js_clamp_def algebra_simps)

lemma deltaAngle_shortest:
  "- pi < deltaAngle current target \<and> deltaAngle current target \<le> pi
   \<and> (\<exists>k::int. deltaAngle current target = target - current + of_int k * (2 * pi))"
proof -
  let ?d = "target - current"
  let ?k = "\<lfloor>?d / (pi * 2)\<rfloor>"
  let ?R = "repeat ?d (pi * 2)"
  have r: "?R = ?d - of_int ?k * (pi * 2)" "0 \<le> ?R" "?R < pi * 2"
    using repeat_eq [of "pi * 2" ?d] by simp_all
  show ?thesis
  proof (cases "pi < ?R")
    case True
    then have D: "deltaAngle current target = ?R - pi * 2" by (simp add: deltaAngle_def)
    have "?R - pi * 2 = ?d + of_int (- ?k - 1) * (2 * pi)"
      unfolding r(1) by (simp add: algebra_simps)
    with D True r(3) show ?thesis by (intro conjI exI [of _ "- ?k - 1"]) linarith+
  next
    case False
    then have D: "deltaAngle current target = ?R" by (simp add: deltaAngle_def)
    have "?R = ?d + of_int (- ?k) * (2 * pi)"
      unfolding r(1) by (simp add: algebra_simps)
    moreover have "- pi < ?R" using r(2) pi_gt_zero by linarith
    ultimately show ?thesis using D False by (intro conjI exI [of _ "- ?k"]) linarith+
  qed
qed

lemma deltaAngle_near:
  assumes "\<bar>target - current\<bar> < pi"
  shows "deltaAngle current target = target - current"
proof -
  from deltaAngle_shortest obtain k :: int where
    k: "deltaAngle current target = target - current + of_int k * (2 * pi)"
    and lo: "- pi < deltaAngle current target" and hi: "deltaAngle current target \<le> pi"
    by blast
  have e: "of_int k * (2 * pi) = 2 * (of_int k * pi)" by simp
  have "(-1) * pi < of_int k * pi" "of_int k * pi < 1 * pi"
    using k lo hi assms unfolding e abs_less_iff by linarith+
  then have "(-1::real) < of_int k" "of_int k < (1::real)"
    by (simp_all only: mult_less_cancel_right_pos [OF pi_gt_zero])
  then have "k = 0" by linarith
  with k show ?thesis by simp
qed

lemma dampAngle_near:
  assumes "\<bar>target - current\<bar> < pi"
  shows "dampAngle current vel target smoothTime delta maxSpeed eps =
         damp current vel target smoothTime delta maxSpeed eps"
  using deltaAngle_near [OF assms] by (simp add: dampAngle_def)

lemma damp_rate_bounds: "0 < delta \<Longrightarrow> 0 \<le> damp_rate delta \<and> damp_rate delta < 1"
  using maath_exp_contracts [of "4 * delta"] maath_exp_pos [of "4 * delta"]
  by (simp add: damp_rate_def)

lemma damp_eps_pos [simp]: "0 < damp_eps"
  by (simp add: damp_eps_def)

lemma damp_snap:
  "\<bar>current - target\<bar> \<le> eps \<Longrightarrow>
   damp current vel target smoothTime delta maxSpeed eps = (False, target, vel)"
  by (simp add: damp_def)

lemma dampAngle_step_inv:
  assumes dl: "0 < delta" and inv: "damp_inv target s"
  defines "s' \<equiv> dampAngle_step target delta s"
  shows "damp_inv target s'
    \<and> \<bar>fst s' - target\<bar> \<le> damp_rate delta * \<bar>fst s - target\<bar>
    \<and> 0 \<le> (fst s' - target) * (fst s - target)
    \<and> (\<bar>fst s - target\<bar> \<le> damp_eps \<longrightarrow> fst s' = target)"
proof -
  obtain cur vel where s: "s = (cur, vel)" by fastforce
  have near: "\<bar>target - cur\<bar> < pi" using inv s by (simp add: damp_inv_def abs_minus_commute)
  obtain b cur' vel' where res: "damp cur vel target 0.5 delta None damp_eps = (b, cur', vel')"
    by (metis prod.exhaust)
  have s': "s' = (cur', vel')"
    using res dampAngle_near [OF near] by (simp add: s'_def dampAngle_step_def s)
  have r: "0 \<le> damp_rate delta" "damp_rate delta < 1" using damp_rate_bounds [OF dl] by auto
  have snap: "\<bar>cur - target\<bar> \<le> damp_eps \<Longrightarrow> cur' = target"
    using res by (simp add: damp_snap)
  have "cur' = target \<or> (damp_consistent 4 (cur' - target) vel'
        \<and> \<bar>cur' - target\<bar> \<le> damp_rate delta * \<bar>cur - target\<bar>
        \<and> 0 < (cur' - target) * (cur - target))"
  proof (cases "cur = target")
    case True
    with res show ?thesis by (simp add: damp_snap less_imp_le)
  next
    case False
    with inv s have "damp_consistent 4 (cur - target) vel" by (simp add: damp_inv_def)
    from damp_step_consistent [OF dl damp_eps_pos this res] show ?thesis
      by (auto simp: damp_rate_def)
  qed
  moreover have "\<bar>cur - target\<bar> < pi" using near by (simp add: abs_minus_commute)
  moreover have "damp_rate delta * \<bar>cur - target\<bar> \<le> \<bar>cur - target\<bar>"
    using r by (simp add: mult_left_le_one_le)
  ultimately show ?thesis
    using r snap unfolding s' s damp_inv_def by auto
qed

lemma dampAngle_run_inv:
  assumes "0 < delta" "damp_inv target s"
  shows "damp_inv target ((dampAngle_step target delta ^^ n) s)"
  using assms by (induction n) (simp_all add: dampAngle_step_inv)

lemma dampAngle_run_geometric:
  assumes dl: "0 < delta" and inv: "damp_inv target s"
  shows "\<bar>fst ((dampAngle_step target delta ^^ n) s) - target\<bar>
         \<le> damp_rate delta ^ n * \<bar>fst s - target\<bar>"
proof (induction n)
  case 0
  then show ?case by simp
next
  case (Suc n)
  let ?s = "(dampAngle_step target delta ^^ n) s"
  have "\<bar>fst (dampAngle_step target delta ?s) - target\<bar> \<le> damp_rate delta * \<bar>fst ?s - target\<bar>"
    using dampAngle_step_inv [OF dl dampAngle_run_inv [OF dl inv]] by blast
  also have "\<dots> \<le> damp_rate delta * (damp_rate delta ^ n * \<bar>fst s - target\<bar>)"
    using Suc.IH damp_rate_bounds [OF dl] by (simp add: mult_left_mono)
  finally show ?case by (simp add: mult.assoc)
qed

lemma dampAngle_run_stays:
  assumes dl: "0 < delta" and inv: "damp_inv target s"
    and at: "fst ((dampAngle_step target delta ^^ n) s) = target"
  shows "fst ((dampAngle_step target delta ^^ (n + k)) s) = target"
proof (induction k)
  case 0
  then show ?case using at by simp
next
  case (Suc k)
  then show ?case
    using dampAngle_step_inv [OF dl dampAngle_run_inv [OF dl inv], of "n + k"] by simp
qed

lemma dampAngle_run_reaches:
  assumes dl: "0 < delta" and inv: "damp_inv target s"
    and small: "damp_rate delta ^ n * \<bar>fst s - target\<bar> \<le> damp_eps"
    and m: "n < m"
  shows "fst ((dampAngle_step target delta ^^ m) s) = target"
proof -
  have "\<bar>fst ((dampAngle_step target delta ^^ n) s) - target\<bar> \<le> damp_eps"
    using dampAngle_run_geometric [OF dl inv, of n] small by linarith
  then have "fst ((dampAngle_step target delta ^^ Suc n) s) = target"
    using dampAngle_step_inv [OF dl dampAngle_run_inv [OF dl inv], of n] by simp
  from dampAngle_run_stays [OF dl inv this, of "m - Suc n"] m show ?thesis by simp
qed

lemma damp_rate_power_small:
  assumes "0 < delta"
  shows "\<exists>n. damp_rate delta ^ n * c \<le> damp_eps"
proof (cases "c \<le> 0")
  case True
  have "damp_rate delta ^ 0 * c = c" by simp
  also have "\<dots> \<le> damp_eps" using True damp_eps_pos by linarith
  finally have "damp_rate delta ^ 0 * c \<le> damp_eps" .
  then show ?thesis by blast
next
  case False
  then have c: "0 < c" by simp
  obtain n where "damp_rate delta ^ n < damp_eps / c"
    using real_arch_pow_inv [of "damp_eps / c" "damp_rate delta"] c damp_rate_bounds [OF assms]
    by auto
  then have "damp_rate delta ^ n * c < damp_eps" using c by (simp add: less_divide_eq)
  then show ?thesis by (intro exI [of _ n]) simp
qed

section \<open>Runs from any state\<close>

text \<open>
  From an offset \<open>c\<close> with velocity \<open>v\<close>, the spring's linear map has the closed
  form \<open>t^n (c + n (4 delta c + delta v))\<close> (its matrix is the identity plus a
  nilpotent part, the critical damping); with Bernoulli's inequality the offset is at most
  \<open>damp_rate delta ^ n * (|c| + |v| / 4)\<close>. A run of \<open>dampAngle\<close> follows that map
  until it snaps or clamps to the target, where it stays, and it never leaves the
  representative of the target as long as \<open>|c| + |v| / 4 < pi\<close>.
\<close>

lemma spring_lin_pow:
  "(spring_lin delta ^^ n) (c, v) =
     (maath_exp (4 * delta) ^ n * (c + real n * (4 * delta * c + delta * v)),
      maath_exp (4 * delta) ^ n * (v - real n * (16 * delta * c + 4 * delta * v)))"
proof (induction n)
  case 0
  then show ?case by simp
next
  case (Suc n)
  have "(spring_lin delta ^^ Suc n) (c, v) = spring_lin delta ((spring_lin delta ^^ n) (c, v))"
    by simp
  also have "\<dots> = spring_lin delta
      (maath_exp (4 * delta) ^ n * (c + real n * (4 * delta * c + delta * v)),
       maath_exp (4 * delta) ^ n * (v - real n * (16 * delta * c + 4 * delta * v)))"
    by (simp only: Suc.IH)
  also have "\<dots> = (maath_exp (4 * delta) ^ Suc n * (c + real (Suc n) * (4 * delta * c + delta * v)),
      maath_exp (4 * delta) ^ Suc n * (v - real (Suc n) * (16 * delta * c + 4 * delta * v)))"
    by (simp add: spring_lin_def Let_def algebra_simps)
  finally show ?case .
qed

lemma spring_lin_bound:
  assumes "0 < delta"
  shows "\<bar>fst ((spring_lin delta ^^ n) (c, v))\<bar> \<le> damp_rate delta ^ n * (\<bar>c\<bar> + \<bar>v\<bar> / 4)"
proof -
  let ?t = "maath_exp (4 * delta)"
  have t: "0 \<le> ?t" using maath_exp_pos [of "4 * delta"] assms by simp
  have bern: "1 + real n * (4 * delta) \<le> (1 + 4 * delta) ^ n"
    using Bernoulli_inequality [of "4 * delta" n] assms by simp
  have "\<bar>c + real n * (4 * delta * c + delta * v)\<bar> \<le> (1 + real n * (4 * delta)) * (\<bar>c\<bar> + \<bar>v\<bar> / 4)"
  proof -
    have "\<bar>c + real n * (4 * delta * c + delta * v)\<bar>
          \<le> \<bar>c\<bar> + real n * (4 * delta) * \<bar>c\<bar> + real n * delta * \<bar>v\<bar>"
      using assms by (simp add: abs_mult abs_triangle_ineq order_trans [OF abs_triangle_ineq] distrib_left
          add_mono)
    also have "\<dots> \<le> (1 + real n * (4 * delta)) * (\<bar>c\<bar> + \<bar>v\<bar> / 4)"
      using assms by (simp add: algebra_simps)
    finally show ?thesis .
  qed
  also have "\<dots> \<le> (1 + 4 * delta) ^ n * (\<bar>c\<bar> + \<bar>v\<bar> / 4)"
    using bern by (intro mult_right_mono) simp_all
  finally have "?t ^ n * \<bar>c + real n * (4 * delta * c + delta * v)\<bar>
                \<le> ?t ^ n * ((1 + 4 * delta) ^ n * (\<bar>c\<bar> + \<bar>v\<bar> / 4))"
    using t by (intro mult_left_mono) simp_all
  then show ?thesis
    using t by (simp add: spring_lin_pow abs_mult damp_rate_def power_mult_distrib mult.assoc mult.commute
        mult.left_commute)
qed

lemma deltaAngle_self [simp]: "deltaAngle a a = 0"
  by (simp add: deltaAngle_def repeat_def js_clamp_def)

lemma dampAngle_step_at_target:
  "fst s = target \<Longrightarrow> dampAngle_step target delta s = (target, snd s)"
  by (cases s) (simp add: dampAngle_step_def dampAngle_def damp_snap less_imp_le)

lemma dampAngle_step_free:
  assumes dl: "0 < delta" and c: "\<bar>c\<bar> < pi"
  shows "(\<bar>c\<bar> \<le> damp_eps \<longrightarrow> fst (dampAngle_step target delta (target + c, v)) = target)
     \<and> (fst (dampAngle_step target delta (target + c, v)) = target
        \<or> dampAngle_step target delta (target + c, v) =
             (target + fst (spring_lin delta (c, v)), snd (spring_lin delta (c, v))))"
proof -
  have near: "\<bar>target - (target + c)\<bar> < pi" using c by simp
  have step: "dampAngle_step target delta (target + c, v) =
      snd (damp (target + c) v target 0.5 delta None damp_eps)"
    using dampAngle_near [OF near] by (simp add: dampAngle_step_def)
  show ?thesis
  proof (cases "\<bar>c\<bar> \<le> damp_eps")
    case True
    then show ?thesis unfolding step by (simp add: damp_snap)
  next
    case False
    have om: "2 / max 0.0001 (0.5::real) = 4" by simp
    have "damp (target + c) v target 0.5 delta None damp_eps =
       (if (0 < target - (target + c)) = (0 < fst (spring_lin delta (c, v))) then (True, target, 0)
        else (True, target + fst (spring_lin delta (c, v)), snd (spring_lin delta (c, v))))"
      using damp_far [of damp_eps "target + c" target v "0.5" delta] False
      by (simp add: om spring_lin_def Let_def)
    then show ?thesis unfolding step using False by auto
  qed
qed

lemma dampAngle_run_free:
  assumes dl: "0 < delta" and B: "\<bar>c\<bar> + \<bar>v\<bar> / 4 < pi"
  shows "fst ((dampAngle_step target delta ^^ n) (target + c, v)) = target
    \<or> (dampAngle_step target delta ^^ n) (target + c, v) =
         (target + fst ((spring_lin delta ^^ n) (c, v)), snd ((spring_lin delta ^^ n) (c, v)))"
proof (induction n)
  case 0
  then show ?case by simp
next
  case (Suc n)
  let ?s = "(dampAngle_step target delta ^^ n) (target + c, v)"
  let ?l = "(spring_lin delta ^^ n) (c, v)"
  from Suc.IH show ?case
  proof
    assume "fst ?s = target"
    then show ?thesis by (simp add: dampAngle_step_at_target)
  next
    assume s: "?s = (target + fst ?l, snd ?l)"
    have "\<bar>fst ?l\<bar> \<le> damp_rate delta ^ n * (\<bar>c\<bar> + \<bar>v\<bar> / 4)"
      by (rule spring_lin_bound [OF dl])
    also have "\<dots> \<le> \<bar>c\<bar> + \<bar>v\<bar> / 4"
      using damp_rate_bounds [OF dl] by (intro mult_left_le_one_le power_le_one) simp_all
    finally have "\<bar>fst ?l\<bar> < pi" using B by linarith
    from dampAngle_step_free [OF dl this, of target "snd ?l"] s show ?thesis by auto
  qed
qed

lemma dampAngle_run_free_reaches:
  assumes dl: "0 < delta" and B: "\<bar>c\<bar> + \<bar>v\<bar> / 4 < pi"
    and small: "damp_rate delta ^ n * (\<bar>c\<bar> + \<bar>v\<bar> / 4) \<le> damp_eps" and m: "n < m"
  shows "fst ((dampAngle_step target delta ^^ m) (target + c, v)) = target"
proof -
  let ?s = "(dampAngle_step target delta ^^ n) (target + c, v)"
  let ?l = "(spring_lin delta ^^ n) (c, v)"
  have at: "fst ((dampAngle_step target delta ^^ Suc n) (target + c, v)) = target"
    using dampAngle_run_free [OF dl B, where target = target and n = n]
  proof
    assume "fst ?s = target"
    then show ?thesis by (simp add: dampAngle_step_at_target)
  next
    assume s: "?s = (target + fst ?l, snd ?l)"
    have e: "\<bar>fst ?l\<bar> \<le> damp_eps" using spring_lin_bound [OF dl, of n c v] small by linarith
    moreover have "\<bar>fst ?l\<bar> < pi" using e pi_ge_three by (simp add: damp_eps_def)
    ultimately show ?thesis using dampAngle_step_free [OF dl, of "fst ?l" target "snd ?l"] s by simp
  qed
  have "fst ((dampAngle_step target delta ^^ (Suc n + k)) (target + c, v)) = target" for k
  proof (induction k)
    case 0
    then show ?case using at by simp
  next
    case (Suc k)
    then show ?case by (simp add: dampAngle_step_at_target)
  qed
  from this [of "m - Suc n"] m show ?thesis by simp
qed

lemma damp_consistent_vel: "damp_consistent 4 c v \<Longrightarrow> \<bar>v\<bar> \<le> 4 * \<bar>c\<bar>"
  by (auto simp: damp_consistent_def)

lemma dampAngle_step_vel:
  assumes dl: "0 < delta" and inv: "damp_inv target s" and ok: "damp_vel_ok target s"
  shows "damp_vel_ok target (dampAngle_step target delta s)"
proof -
  obtain cur vel where s: "s = (cur, vel)" by fastforce
  have near: "\<bar>target - cur\<bar> < pi" using inv s by (simp add: damp_inv_def abs_minus_commute)
  obtain b cur' vel' where res: "damp cur vel target 0.5 delta None damp_eps = (b, cur', vel')"
    by (metis prod.exhaust)
  have s': "dampAngle_step target delta s = (cur', vel')"
    using res dampAngle_near [OF near] by (simp add: dampAngle_step_def s)
  have eps: "0 \<le> damp_eps" by (simp add: damp_eps_def)
  show ?thesis
  proof (cases "cur = target")
    case True
    then have "damp cur vel target 0.5 delta None damp_eps = (False, target, vel)"
      by (simp add: damp_snap less_imp_le)
    with res have "cur' = target" "vel' = vel" by simp_all
    with ok s True eps show ?thesis unfolding s' by (simp add: damp_vel_ok_def max_def)
  next
    case False
    with inv s have cons: "damp_consistent 4 (cur - target) vel" by (simp add: damp_inv_def)
    have vb: "\<bar>vel\<bar> \<le> 4 * \<bar>cur - target\<bar>" by (rule damp_consistent_vel [OF cons])
    from damp_step_consistent [OF dl damp_eps_pos cons res] show ?thesis
    proof
      assume "cur' = target \<and> (vel' = 0 \<or> \<bar>cur - target\<bar> \<le> damp_eps \<and> vel' = vel)"
      with vb eps show ?thesis unfolding s' by (auto simp: damp_vel_ok_def)
    next
      assume "damp_consistent 4 (cur' - target) vel'
        \<and> \<bar>cur' - target\<bar> \<le> (1 + 4 * delta) * maath_exp (4 * delta) * \<bar>cur - target\<bar>
        \<and> 0 < (cur' - target) * (cur - target)"
      then have "\<bar>vel'\<bar> \<le> 4 * \<bar>cur' - target\<bar>" using damp_consistent_vel by blast
      then show ?thesis unfolding s' by (simp add: damp_vel_ok_def max_def)
    qed
  qed
qed

lemma dampAngle_run_vel:
  assumes "0 < delta" "damp_inv target s" "damp_vel_ok target s"
  shows "damp_vel_ok target ((dampAngle_step target delta ^^ n) s)"
proof (induction n)
  case 0
  then show ?case using assms(3) by simp
next
  case (Suc n)
  then show ?case using dampAngle_step_vel [OF assms(1) dampAngle_run_inv [OF assms(1,2)]] by simp
qed

text \<open>
  A run from rest towards \<open>t1\<close>, interrupted after any number of frames and continued
  towards \<open>t2\<close>: the interrupted state is within the bound of the free run, so the
  continued run reaches \<open>t2\<close>.
\<close>

lemma dampAngle_retarget_bound:
  fixes n :: nat
  assumes dl: "0 < delta" and t1: "\<bar>t1\<bar> < pi"
  defines "s \<equiv> (dampAngle_step t1 delta ^^ n) (0, 0)"
  shows "\<bar>fst s - t2\<bar> + \<bar>snd s\<bar> / 4 \<le> 3 * \<bar>t1\<bar> + \<bar>t2\<bar> + damp_eps"
proof -
  have inv: "damp_inv t1 (0, 0)" using t1 by (auto simp: damp_inv_def damp_consistent_def)
  have ok: "damp_vel_ok t1 (0, 0)" by (simp add: damp_vel_ok_def damp_eps_def)
  have c: "\<bar>fst s - t1\<bar> \<le> \<bar>t1\<bar>"
  proof -
    have "\<bar>fst s - t1\<bar> \<le> damp_rate delta ^ n * \<bar>fst (0::real, 0::real) - t1\<bar>"
      unfolding s_def by (rule dampAngle_run_geometric [OF dl inv])
    also have "\<dots> \<le> \<bar>t1\<bar>"
      using damp_rate_bounds [OF dl] by (simp add: mult_left_le_one_le power_le_one)
    finally show ?thesis .
  qed
  have v: "\<bar>snd s\<bar> \<le> 4 * max \<bar>fst s - t1\<bar> damp_eps"
    using dampAngle_run_vel [OF dl inv ok, of n] by (simp add: s_def damp_vel_ok_def)
  have eps: "0 \<le> damp_eps" by (simp add: damp_eps_def)
  have m: "max \<bar>fst s - t1\<bar> damp_eps \<le> \<bar>t1\<bar> + damp_eps"
    using c eps by (simp add: max_def)
  have v4: "\<bar>snd s\<bar> / 4 \<le> max \<bar>fst s - t1\<bar> damp_eps" using v by simp
  have "\<bar>fst s - t2\<bar> \<le> \<bar>fst s - t1\<bar> + \<bar>t1\<bar> + \<bar>t2\<bar>" by linarith
  moreover have "\<bar>snd s\<bar> / 4 \<le> \<bar>t1\<bar> + damp_eps" using order_trans [OF v4 m] .
  ultimately show ?thesis using c by linarith
qed

end
