(* ===== verification/Page_Animator.thy ===== *)
theory Page_Animator
  imports Page_Mesh Maath_Easing
begin

text \<open>
  The per-frame update of one page (\<open>Book.jsx\<close>, lines 152--184): the callback that
  \<open>useFrame\<close> runs with the frame's \<open>delta\<close>. It computes the page's base angle from
  its props, then, for every bone index from 1 to the last, a target angle (a curl near the
  spine while the book is open, straight while it is closed) and eases the bone's
  \<open>rotation.y\<close> towards it with \<open>dampAngle\<close>. A page whose mesh reference is not set
  yet skips the frame. The state of a page instance is its mesh (whose skeleton the
  callback mutates) and the rotation of its \<open>group\<close>.
\<close>

section \<open>Definitions\<close>

text \<open>The props a \<open>Page\<close> reads in the callback (the texture ids are read at mount).\<close>

record page_props =
  number :: nat
  page :: int
  opened :: bool
  bookClosed :: bool

record page_inst =
  mesh_ref :: "skinned_mesh option"
  group_rotation_y :: angle
  group_velocity_y :: real

text \<open>three.js \<open>MathUtils.degToRad\<close>.\<close>

definition degToRad :: "real \<Rightarrow> real" where
  "degToRad degrees = degrees * (pi / 180)"

text \<open>Lines 157--160: the page's base angle.\<close>

definition target_rotation :: "page_props \<Rightarrow> angle" where
  "target_rotation p =
     (let targetRotation = (if opened p then - pi / 2 else pi / 2)
      in if \<not> bookClosed p then targetRotation + degToRad (real (number p) * 0.8)
         else targetRotation)"

text \<open>Line 166.\<close>

definition insideCurveIntensity :: "nat \<Rightarrow> real" where
  "insideCurveIntensity i = (if i < 8 then sin (real i * 0.2 + 0.25) else 0)"

text \<open>Lines 166--175: the angle bone \<open>i\<close> is eased towards.\<close>

definition rotationAngle :: "page_props \<Rightarrow> nat \<Rightarrow> angle" where
  "rotationAngle p i =
     (let targetRotation = target_rotation p;
          angle = insideCurveStrength * insideCurveIntensity i * targetRotation
      in if bookClosed p then (if i = 0 then targetRotation else 0) else angle)"

text \<open>Lines 176--182 on a bone: \<open>easing.dampAngle(bone.rotation, "y", angle, 0.5, delta)\<close>.\<close>

definition damp_bone :: "page_props \<Rightarrow> real \<Rightarrow> nat \<Rightarrow> bone \<Rightarrow> bone" where
  "damp_bone p delta i b =
     (let (_, r, v) = dampAngle (rotation_y b) (velocity_y b) (rotationAngle p i)
                        easingFactor delta None damp_eps
      in b\<lparr>rotation_y := r, velocity_y := v\<rparr>)"

text \<open>
  One iteration of the loop of lines 163--183 on the state it mutates: the group's
  rotation and velocity and the bones. Index 0 would address the group.
\<close>

definition frame_bone ::
  "page_props \<Rightarrow> real \<Rightarrow> nat \<Rightarrow> angle \<times> real \<times> bone list \<Rightarrow> angle \<times> real \<times> bone list" where
  "frame_bone p delta i st =
     (let (gr, gv, bones) = st
      in if i = 0 then
           (let (_, r, v) = dampAngle gr gv (rotationAngle p i) easingFactor delta None damp_eps
            in (r, v, bones))
         else (gr, gv, bones[i := damp_bone p delta i (bones ! i)]))"

text \<open>Lines 152--184: the \<open>useFrame\<close> callback.\<close>

definition page_frame :: "page_props \<Rightarrow> real \<Rightarrow> page_inst \<Rightarrow> page_inst" where
  "page_frame p delta inst =
     (case mesh_ref inst of
        None \<Rightarrow> inst
      | Some mesh \<Rightarrow>
          (let bones = skeleton mesh;
               (gr, gv, bones') = fold (frame_bone p delta) [1..<length bones]
                                   (group_rotation_y inst, group_velocity_y inst, bones)
           in inst\<lparr>mesh_ref := Some (mesh\<lparr>skeleton := bones'\<rparr>),
                   group_rotation_y := gr, group_velocity_y := gv\<rparr>))"

text \<open>A page as it mounts: its mesh built from its two textures, the group at rest.\<close>

definition page_mount :: "string \<Rightarrow> string \<Rightarrow> page_inst" where
  "page_mount front back =
     (let (picture, picture2) = page_pictures front back
      in \<lparr>mesh_ref = Some (manualSkinnedMesh picture picture2),
          group_rotation_y = 0, group_velocity_y = 0\<rparr>)"

text \<open>
  What the loop does to the skeleton, stated as one map: every bone but the root is
  replaced by its damped copy, each computed from the bone as it was before the frame.
\<close>

definition damp_bones :: "page_props \<Rightarrow> real \<Rightarrow> bone list \<Rightarrow> bone list" where
  "damp_bones p delta bs =
     map (\<lambda>k. if 0 < k then damp_bone p delta k (bs ! k) else bs ! k) [0..<length bs]"

text \<open>\<open>n\<close> frames with the same props and frame time.\<close>

definition page_frames :: "nat \<Rightarrow> page_props \<Rightarrow> real \<Rightarrow> page_inst \<Rightarrow> page_inst" where
  "page_frames n p delta = page_frame p delta ^^ n"

section \<open>The frame loop as a map\<close>

lemma frame_bone_pos:
  "0 < i \<Longrightarrow> frame_bone p delta i (gr, gv, bs) = (gr, gv, bs[i := damp_bone p delta i (bs ! i)])"
  by (simp add: frame_bone_def)

lemma fold_frame_bone:
  assumes "\<forall>i\<in>set is. 0 < i" "distinct is"
  shows "fold (frame_bone p delta) is (gr, gv, bs) =
           (gr, gv, map (\<lambda>k. if k \<in> set is then damp_bone p delta k (bs ! k) else bs ! k)
                        [0..<length bs])"
  using assms
proof (induction "is" arbitrary: bs)
  case Nil
  then show ?case by (simp add: map_nth)
next
  case (Cons x xs)
  let ?bs1 = "bs[x := damp_bone p delta x (bs ! x)]"
  have IH: "fold (frame_bone p delta) xs (gr, gv, ?bs1) =
      (gr, gv, map (\<lambda>k. if k \<in> set xs then damp_bone p delta k (?bs1 ! k) else ?bs1 ! k)
                   [0..<length bs])"
    using Cons by simp
  have "map (\<lambda>k. if k \<in> set xs then damp_bone p delta k (?bs1 ! k) else ?bs1 ! k) [0..<length bs]
      = map (\<lambda>k. if k \<in> set (x # xs) then damp_bone p delta k (bs ! k) else bs ! k) [0..<length bs]"
    using Cons.prems by (auto simp: nth_list_update) (metis nth_list_update_neq)
  with IH Cons.prems show ?case by (simp add: frame_bone_pos)
qed

lemma page_frame_Some:
  assumes "mesh_ref inst = Some mesh"
  shows "page_frame p delta inst =
           inst\<lparr>mesh_ref := Some (mesh\<lparr>skeleton := damp_bones p delta (skeleton mesh)\<rparr>)\<rparr>"
proof -
  have "fold (frame_bone p delta) [1..<length (skeleton mesh)]
          (group_rotation_y inst, group_velocity_y inst, skeleton mesh)
        = (group_rotation_y inst, group_velocity_y inst, damp_bones p delta (skeleton mesh))"
    by (subst fold_frame_bone) (auto simp: damp_bones_def intro!: map_cong)
  with assms show ?thesis by (simp add: page_frame_def)
qed

lemma length_damp_bones [simp]: "length (damp_bones p delta bs) = length bs"
  by (simp add: damp_bones_def)

lemma nth_damp_bones:
  "k < length bs \<Longrightarrow>
   damp_bones p delta bs ! k = (if 0 < k then damp_bone p delta k (bs ! k) else bs ! k)"
  by (cases k) (simp_all add: damp_bones_def)

lemma length_damp_bones_pow [simp]: "length ((damp_bones p delta ^^ n) bs) = length bs"
  by (induction n) simp_all

lemma nth_damp_bones_pow:
  "k < length bs \<Longrightarrow>
   (damp_bones p delta ^^ n) bs ! k = (if 0 < k then (damp_bone p delta k ^^ n) (bs ! k) else bs ! k)"
  by (induction n) (auto simp: nth_damp_bones)

lemma damp_bone_frame [simp]:
  "parent (damp_bone p delta i b) = parent b" "position_x (damp_bone p delta i b) = position_x b"
  by (simp_all add: damp_bone_def case_prod_beta)

lemma chain_wf_damp_bones_pow:
  "chain_wf ((damp_bones p delta ^^ n) bs) = chain_wf bs"
proof -
  have "parent ((damp_bones p delta ^^ n) bs ! k) = parent (bs ! k)
        \<and> position_x ((damp_bones p delta ^^ n) bs ! k) = position_x (bs ! k)"
    if "k < length bs" for k
  proof -
    have "parent ((damp_bone p delta k ^^ m) b) = parent b
          \<and> position_x ((damp_bone p delta k ^^ m) b) = position_x b" for m b
      by (induction m) simp_all
    then show ?thesis using nth_damp_bones_pow [OF that] by simp
  qed
  then show ?thesis by (auto simp: chain_wf_def)
qed

lemma page_frames_Some:
  assumes "mesh_ref inst = Some mesh"
  shows "page_frames n p delta inst =
           inst\<lparr>mesh_ref := Some (mesh\<lparr>skeleton := (damp_bones p delta ^^ n) (skeleton mesh)\<rparr>)\<rparr>"
proof (induction n)
  case 0
  show ?case by (simp add: page_frames_def assms [symmetric])
next
  case (Suc n)
  then show ?case by (simp add: page_frames_def page_frame_Some)
qed

section \<open>One bone over many frames\<close>

lemma damp_bone_step:
  "(rotation_y (damp_bone p delta i b), velocity_y (damp_bone p delta i b)) =
     dampAngle_step (rotationAngle p i) delta (rotation_y b, velocity_y b)"
  by (simp add: damp_bone_def dampAngle_step_def easingFactor_def case_prod_beta)

lemma damp_bone_pow:
  "(rotation_y ((damp_bone p delta i ^^ n) b), velocity_y ((damp_bone p delta i ^^ n) b)) =
     (dampAngle_step (rotationAngle p i) delta ^^ n) (rotation_y b, velocity_y b)"
proof (induction n)
  case 0
  then show ?case by simp
next
  case (Suc n)
  have "(rotation_y ((damp_bone p delta i ^^ Suc n) b), velocity_y ((damp_bone p delta i ^^ Suc n) b))
        = dampAngle_step (rotationAngle p i) delta
            (rotation_y ((damp_bone p delta i ^^ n) b), velocity_y ((damp_bone p delta i ^^ n) b))"
    by (simp add: damp_bone_step)
  with Suc.IH show ?case by simp
qed

lemma target_rotation_bound:
  "\<bar>target_rotation p\<bar> \<le> pi / 2 + real (number p) * 0.8 * (pi / 180)"
proof -
  have "0 \<le> real (number p) * 0.8 * (pi / 180)" by simp
  then show ?thesis
    by (auto simp: target_rotation_def degToRad_def Let_def abs_if)
qed

lemma rotationAngle_small:
  assumes "number p \<le> 1000" "0 < i"
  shows "\<bar>rotationAngle p i\<bar> < pi"
proof -
  have n: "real (number p) * 0.8 * (pi / 180) \<le> 1000 * 0.8 * (pi / 180)"
    using assms(1) by (intro mult_right_mono) simp_all
  have e: "(1000::real) * 0.8 * (pi / 180) = 40 / 9 * pi" by simp
  have tr: "\<bar>target_rotation p\<bar> \<le> 89 / 18 * pi"
    using target_rotation_bound [of p] n unfolding e by linarith
  have "\<bar>insideCurveIntensity i\<bar> \<le> 1" by (simp add: insideCurveIntensity_def abs_sin_le_one)
  then have "\<bar>insideCurveStrength * insideCurveIntensity i * target_rotation p\<bar>
             \<le> 0.15 * \<bar>target_rotation p\<bar>"
    by (simp add: abs_mult page_consts mult_left_le_one_le)
  also have "\<dots> \<le> 0.15 * (89 / 18 * pi)" using tr by simp
  also have "\<dots> < pi" by simp
  finally show ?thesis using assms(2) by (auto simp: rotationAngle_def Let_def)
qed

section \<open>A page from the moment it mounts\<close>

lemma page_mount_mesh:
  "mesh_ref (page_mount front back) =
     Some (manualSkinnedMesh (fst (page_pictures front back)) (snd (page_pictures front back)))"
  by (simp add: page_mount_def case_prod_beta)

lemma mounted_bone_run:
  assumes "0 < i" "i \<le> PAGE_SEGMENTS"
  shows "(rotation_y (skeleton (the (mesh_ref (page_frames n p delta (page_mount front back)))) ! i),
          velocity_y (skeleton (the (mesh_ref (page_frames n p delta (page_mount front back)))) ! i))
         = (dampAngle_step (rotationAngle p i) delta ^^ n) (0, 0)"
proof -
  let ?m = "manualSkinnedMesh (fst (page_pictures front back)) (snd (page_pictures front back))"
  have len: "i < length (skeleton ?m)"
    using manual_skeleton_wf assms(2) by (simp add: chain_wf_def)
  have rest: "rotation_y (skeleton ?m ! i) = 0" "velocity_y (skeleton ?m ! i) = 0"
    using manual_skeleton_at_rest assms(2) by blast+
  show ?thesis
    using page_frames_Some [OF page_mount_mesh] nth_damp_bones_pow [OF len] assms(1)
      damp_bone_pow [where p = p and delta = delta and i = i and n = n and b = "skeleton ?m ! i"] rest
    by simp
qed

lemma rest_damp_inv:
  assumes "\<bar>a\<bar> < pi"
  shows "damp_inv a (0, 0)"
  using assms by (auto simp: damp_inv_def damp_consistent_def)

lemma damp_bone_at_target:
  "rotation_y b = rotationAngle p i \<Longrightarrow> damp_bone p delta i b = b"
  by (simp add: damp_bone_def dampAngle_def damp_snap less_imp_le)

lemma damp_bones_at_target:
  assumes "\<forall>i\<in>{1..<length bs}. rotation_y (bs ! i) = rotationAngle p i"
  shows "damp_bones p delta bs = bs"
proof (rule nth_equalityI)
  fix k assume "k < length (damp_bones p delta bs)"
  then show "damp_bones p delta bs ! k = bs ! k"
    using assms by (auto simp: nth_damp_bones damp_bone_at_target)
qed simp

lemma pi_half_bound: "1.45 < pi / 2"
  using pi_ge_three by simp

lemma mounted_bones_converge:
  assumes "0 < delta" "number p \<le> 1000" "0 < i" "i \<le> PAGE_SEGMENTS"
  shows "(\<forall>n. damp_rate delta ^ n * \<bar>rotationAngle p i\<bar> \<le> damp_eps \<longrightarrow>
            (\<forall>m>n. rotation_y (skeleton (the (mesh_ref (page_frames m p delta (page_mount fr bk))))
                                ! i) = rotationAngle p i))
       \<and> (\<exists>N. \<forall>m\<ge>N. rotation_y (skeleton (the (mesh_ref (page_frames m p delta (page_mount fr bk))))
                                ! i) = rotationAngle p i)"
proof -
  let ?a = "rotationAngle p i"
  have inv: "damp_inv ?a (0, 0)" by (rule rest_damp_inv) (rule rotationAngle_small [OF assms(2,3)])
  have run: "rotation_y (skeleton (the (mesh_ref (page_frames m p delta (page_mount fr bk))))
                 ! i) = fst ((dampAngle_step ?a delta ^^ m) (0, 0))" for m
    using mounted_bone_run [OF assms(3,4), of m p delta fr bk] by (simp add: prod_eq_iff)
  have reach: "\<forall>n. damp_rate delta ^ n * \<bar>?a\<bar> \<le> damp_eps \<longrightarrow>
                 (\<forall>m>n. fst ((dampAngle_step ?a delta ^^ m) (0, 0)) = ?a)"
    using dampAngle_run_reaches [OF assms(1) inv] by simp
  obtain n where "damp_rate delta ^ n * \<bar>?a\<bar> \<le> damp_eps"
    using damp_rate_power_small [OF assms(1)] by blast
  with reach have "\<forall>m\<ge>Suc n. fst ((dampAngle_step ?a delta ^^ m) (0, 0)) = ?a" by auto
  with reach show ?thesis unfolding run by blast
qed

section \<open>A page turned while it moves\<close>

text \<open>
  When the store's page changes, a page's props change while its bones may still be
  moving: the next frames start from the rotation and the stored velocity the old props
  left. For at most 101 pages both targets are within \<open>17/120 pi\<close> of 0.
\<close>

lemma rotationAngle_abs_le:
  assumes "0 < i"
  shows "\<bar>rotationAngle p i\<bar> \<le> 0.15 * (pi / 2 + real (number p) * 0.8 * (pi / 180))"
proof -
  have "\<bar>insideCurveIntensity i\<bar> \<le> 1" by (simp add: insideCurveIntensity_def abs_sin_le_one)
  then have "\<bar>insideCurveStrength * insideCurveIntensity i * target_rotation p\<bar>
             \<le> 0.15 * \<bar>target_rotation p\<bar>"
    by (simp add: abs_mult page_consts mult_left_le_one_le)
  also have "\<dots> \<le> 0.15 * (pi / 2 + real (number p) * 0.8 * (pi / 180))"
    using target_rotation_bound [of p] by simp
  finally show ?thesis using assms pi_gt_zero by (auto simp: rotationAngle_def Let_def)
qed

lemma rotationAngle_le_100:
  assumes "number p \<le> 100" "0 < i"
  shows "\<bar>rotationAngle p i\<bar> \<le> 17 / 120 * pi"
proof -
  have "real (number p) * 0.8 * (pi / 180) \<le> 100 * 0.8 * (pi / 180)"
    using assms(1) by (intro mult_right_mono) simp_all
  then have "0.15 * (pi / 2 + real (number p) * 0.8 * (pi / 180)) \<le> 17 / 120 * pi" by simp
  with rotationAngle_abs_le [OF assms(2), of p] show ?thesis by linarith
qed

lemma turned_bone_run:
  assumes "0 < i" "i \<le> PAGE_SEGMENTS"
  shows "(rotation_y (skeleton (the (mesh_ref (page_frames k p2 delta (page_frames n p1 delta (page_mount fr bk))))) ! i),
          velocity_y (skeleton (the (mesh_ref (page_frames k p2 delta (page_frames n p1 delta (page_mount fr bk))))) ! i))
         = (dampAngle_step (rotationAngle p2 i) delta ^^ k)
             ((dampAngle_step (rotationAngle p1 i) delta ^^ n) (0, 0))"
proof -
  let ?m = "manualSkinnedMesh (fst (page_pictures fr bk)) (snd (page_pictures fr bk))"
  let ?m1 = "?m\<lparr>skeleton := (damp_bones p1 delta ^^ n) (skeleton ?m)\<rparr>"
  have len: "i < length (skeleton ?m)"
    using manual_skeleton_wf assms(2) by (simp add: chain_wf_def)
  have rest: "rotation_y (skeleton ?m ! i) = 0" "velocity_y (skeleton ?m ! i) = 0"
    using manual_skeleton_at_rest assms(2) by blast+
  have f1: "mesh_ref (page_frames n p1 delta (page_mount fr bk)) = Some ?m1"
    using page_frames_Some [OF page_mount_mesh] by simp
  have b1: "skeleton ?m1 ! i = (damp_bone p1 delta i ^^ n) (skeleton ?m ! i)"
    using nth_damp_bones_pow [OF len] assms(1) by simp
  have len1: "i < length (skeleton ?m1)" using len by simp
  have b2: "skeleton (the (mesh_ref (page_frames k p2 delta (page_frames n p1 delta (page_mount fr bk))))) ! i
        = (damp_bone p2 delta i ^^ k) (skeleton ?m1 ! i)"
    using page_frames_Some [OF f1] nth_damp_bones_pow [OF len1] assms(1) by simp
  show ?thesis
    unfolding b2 damp_bone_pow b1 rest ..
qed

section \<open>Properties of the frame\<close>

text \<open>
  C1: on a freshly mounted page with fixed props and a fixed positive frame
  time, every bone \<open>i \<ge> 1\<close> reaches its target angle \<open>rotationAngle p i\<close>
  exactly and stays there: from the first frame \<open>n\<close> at which
  \<open>damp_rate delta ^ n * |target|\<close> falls below maath's \<open>eps = 0.001\<close>, and such a
  frame exists. The page index is bounded (1000 pages) so that every target lies within
  \<open>\<pi>\<close> of the rest angle, where \<open>dampAngle\<close> does not wrap.
\<close>

theorem page_frames_converge:
  assumes "0 < delta" "number p \<le> 1000" "0 < i" "i \<le> PAGE_SEGMENTS"
  shows "(\<forall>n. damp_rate delta ^ n * \<bar>rotationAngle p i\<bar> \<le> damp_eps \<longrightarrow>
            (\<forall>m>n. rotation_y (skeleton (the (mesh_ref (page_frames m p delta (page_mount fr bk))))
                                ! i) = rotationAngle p i))
       \<and> (\<exists>N. \<forall>m\<ge>N. rotation_y (skeleton (the (mesh_ref (page_frames m p delta (page_mount fr bk))))
                                ! i) = rotationAngle p i)"
  using mounted_bones_converge [OF assms] .

text \<open>
  C3: a page whose props change while it is still animating settles at its new targets.
  Whatever number of frames \<open>n\<close> the page ran under its old props \<open>p1\<close> since it
  mounted, and whatever velocity the bones kept, under the new props \<open>p2\<close> every bone
  from index 1 on reaches its new target exactly after a number of frames that depends only
  on the two targets and the frame time, not on \<open>n\<close>.
\<close>

theorem page_turn_converges:
  assumes "0 < delta" "number p1 \<le> 100" "number p2 \<le> 100" "0 < i" "i \<le> PAGE_SEGMENTS"
  shows "(\<forall>N. damp_rate delta ^ N * (3 * \<bar>rotationAngle p1 i\<bar> + \<bar>rotationAngle p2 i\<bar> + damp_eps)
               \<le> damp_eps \<longrightarrow>
            (\<forall>k>N. rotation_y (skeleton (the (mesh_ref
                       (page_frames k p2 delta (page_frames n p1 delta (page_mount fr bk))))) ! i)
                   = rotationAngle p2 i))
       \<and> (\<exists>N. \<forall>k\<ge>N. rotation_y (skeleton (the (mesh_ref
                       (page_frames k p2 delta (page_frames n p1 delta (page_mount fr bk))))) ! i)
                   = rotationAngle p2 i)"
proof -
  let ?t1 = "rotationAngle p1 i" and ?t2 = "rotationAngle p2 i"
  let ?s = "(dampAngle_step ?t1 delta ^^ n) (0, 0)"
  let ?B = "3 * \<bar>?t1\<bar> + \<bar>?t2\<bar> + damp_eps"
  have a1: "\<bar>?t1\<bar> \<le> 17 / 120 * pi" "\<bar>?t2\<bar> \<le> 17 / 120 * pi"
    using rotationAngle_le_100 assms(2,3,4) by blast+
  have B: "?B < pi" using a1 pi_ge_three by (simp add: damp_eps_def)
  have t1: "\<bar>?t1\<bar> < pi" using a1 pi_gt_zero by linarith
  have sB: "\<bar>fst ?s - ?t2\<bar> + \<bar>snd ?s\<bar> / 4 \<le> ?B"
    by (rule dampAngle_retarget_bound [OF assms(1) t1])
  have s: "?s = (?t2 + (fst ?s - ?t2), snd ?s)" by simp
  have run: "rotation_y (skeleton (the (mesh_ref
               (page_frames k p2 delta (page_frames n p1 delta (page_mount fr bk))))) ! i)
           = fst ((dampAngle_step ?t2 delta ^^ k) (?t2 + (fst ?s - ?t2), snd ?s))" for k
    using turned_bone_run [OF assms(4,5), of k p2 delta n p1 fr bk] s by (simp add: prod_eq_iff)
  have reach: "\<forall>N. damp_rate delta ^ N * ?B \<le> damp_eps \<longrightarrow>
      (\<forall>k>N. fst ((dampAngle_step ?t2 delta ^^ k) (?t2 + (fst ?s - ?t2), snd ?s)) = ?t2)"
  proof (intro allI impI)
    fix N k assume small: "damp_rate delta ^ N * ?B \<le> damp_eps" and k: "N < k"
    have "damp_rate delta ^ N * (\<bar>fst ?s - ?t2\<bar> + \<bar>snd ?s\<bar> / 4) \<le> damp_rate delta ^ N * ?B"
      using sB damp_rate_bounds [OF assms(1)] by (intro mult_left_mono) simp_all
    with small have "damp_rate delta ^ N * (\<bar>fst ?s - ?t2\<bar> + \<bar>snd ?s\<bar> / 4) \<le> damp_eps"
      by linarith
    moreover have "\<bar>fst ?s - ?t2\<bar> + \<bar>snd ?s\<bar> / 4 < pi" using sB B by linarith
    ultimately show "fst ((dampAngle_step ?t2 delta ^^ k) (?t2 + (fst ?s - ?t2), snd ?s)) = ?t2"
      using dampAngle_run_free_reaches [OF assms(1) _ _ k, where target = ?t2] by blast
  qed
  obtain N where "damp_rate delta ^ N * ?B \<le> damp_eps"
    using damp_rate_power_small [OF assms(1)] by blast
  with reach have "\<forall>k\<ge>Suc N. fst ((dampAngle_step ?t2 delta ^^ k) (?t2 + (fst ?s - ?t2), snd ?s)) = ?t2"
    by auto
  with reach show ?thesis unfolding run by blast
qed


text \<open>
  C2: the approach is monotone: from one frame to the next a bone's
  distance to its target shrinks at least by the factor \<open>damp_rate delta < 1\<close>, and the
  bone never swings past the target (its offset never changes sign).
\<close>

theorem page_frames_no_overshoot:
  fixes fr bk :: string and n :: nat
  assumes "0 < delta" "number p \<le> 1000" "0 < i" "i \<le> PAGE_SEGMENTS"
  defines "r \<equiv> \<lambda>n. rotation_y (skeleton (the (mesh_ref (page_frames n p delta (page_mount fr bk)))) ! i)
                     - rotationAngle p i"
  shows "\<bar>r (Suc n)\<bar> \<le> damp_rate delta * \<bar>r n\<bar> \<and> 0 \<le> r (Suc n) * r n
       \<and> damp_rate delta < 1"
proof -
  let ?a = "rotationAngle p i"
  let ?s = "\<lambda>n. (dampAngle_step ?a delta ^^ n) (0, 0)"
  have inv: "damp_inv ?a (0, 0)" by (rule rest_damp_inv) (rule rotationAngle_small [OF assms(2,3)])
  have run: "r m = fst (?s m) - ?a" for m
    using mounted_bone_run [OF assms(3,4), of m p delta fr bk]
    by (simp add: r_def prod_eq_iff)
  have "?s (Suc n) = dampAngle_step ?a delta (?s n)" by simp
  with dampAngle_step_inv [OF assms(1) dampAngle_run_inv [OF assms(1) inv, of n]]
  have "\<bar>fst (?s (Suc n)) - ?a\<bar> \<le> damp_rate delta * \<bar>fst (?s n) - ?a\<bar>
        \<and> 0 \<le> (fst (?s (Suc n)) - ?a) * (fst (?s n) - ?a)"
    by simp
  with damp_rate_bounds [OF assms(1)] show ?thesis unfolding run by simp
qed

text \<open>
  C6: the loop starts at index 1, so no frame ever touches bone 0 or
  the page's group: the spine hinge of every page keeps the rotation it had when the page
  mounted, and the \<open>i === 0\<close> branches of lines 164 and 170 are dead code.
\<close>

theorem page_frames_hinge_frozen:
  assumes "mesh_ref inst = Some mesh" "0 < length (skeleton mesh)"
  shows "skeleton (the (mesh_ref (page_frames n p delta inst))) ! 0 = skeleton mesh ! 0
       \<and> group_rotation_y (page_frames n p delta inst) = group_rotation_y inst
       \<and> group_velocity_y (page_frames n p delta inst) = group_velocity_y inst"
  using page_frames_Some [OF assms(1)] nth_damp_bones_pow [OF assms(2)] by simp

text \<open>
  C10: while the mesh reference is not set the callback returns at once: the
  page's state is left exactly as it was.
\<close>

theorem page_frame_skip:
  "mesh_ref inst = None \<Longrightarrow> page_frame p delta inst = inst"
  by (simp add: page_frame_def)

text \<open>
  C5: one frame, a loop that updates the bones in place one index after the
  other, equals the parallel update of every bone from its pre-frame state: bone \<open>k \<ge> 1\<close>
  becomes its damped copy, bone 0 and the group stay, and the skeleton keeps its length.
\<close>

theorem page_frame_equiv:
  assumes "mesh_ref inst = Some mesh"
  shows "mesh_ref (page_frame p delta inst) = Some (mesh\<lparr>skeleton := damp_bones p delta (skeleton mesh)\<rparr>)
       \<and> length (damp_bones p delta (skeleton mesh)) = length (skeleton mesh)
       \<and> (\<forall>k<length (skeleton mesh). damp_bones p delta (skeleton mesh) ! k =
             (if 0 < k then damp_bone p delta k (skeleton mesh ! k) else skeleton mesh ! k))
       \<and> group_rotation_y (page_frame p delta inst) = group_rotation_y inst
       \<and> group_velocity_y (page_frame p delta inst) = group_velocity_y inst"
  using page_frame_Some [OF assms] by (simp add: nth_damp_bones)

text \<open>
  C9: easing is idempotent at the target: when every bone from index 1 on
  already has its target angle, a frame changes nothing, velocities included.
\<close>

theorem page_frame_at_rest:
  assumes "mesh_ref inst = Some mesh"
    and "\<forall>i\<in>{1..<length (skeleton mesh)}. rotation_y (skeleton mesh ! i) = rotationAngle p i"
  shows "page_frame p delta inst = inst"
proof -
  have "mesh\<lparr>skeleton := damp_bones p delta (skeleton mesh)\<rparr> = mesh"
    using damp_bones_at_target [OF assms(2)] by simp
  then show ?thesis using page_frame_Some [OF assms(1)] assms(1) by (simp add: assms(1) [symmetric])
qed

text \<open>
  C8: the curl intensity grows from the spine outwards over bones 0 to
  6 (the sine is still rising there), is positive on bones 0 to 7 and drops to 0 from bone
  8 on: the curl is strongest at bone 7, not near the spine.
\<close>

theorem insideCurveIntensity_shape:
  "(\<forall>i<6. insideCurveIntensity i < insideCurveIntensity (Suc i))
   \<and> (\<forall>i<8. 0 < insideCurveIntensity i)
   \<and> (\<forall>i\<ge>8. insideCurveIntensity i = 0)"
proof (intro conjI allI impI)
  fix i :: nat assume i: "i < 6"
  have lt: "real i * 0.2 + 0.25 < real (Suc i) * 0.2 + 0.25" by simp
  have "0 \<le> real i * 0.2 + 0.25" by simp
  then have y: "- (pi / 2) \<le> real i * 0.2 + 0.25" using pi_gt_zero by linarith
  have "real (Suc i) * 0.2 + 0.25 \<le> 1.45" using i by simp
  then have x: "real (Suc i) * 0.2 + 0.25 \<le> pi / 2" using pi_half_bound by linarith
  have "sin (real i * 0.2 + 0.25) < sin (real (Suc i) * 0.2 + 0.25)"
    by (rule sin_monotone_2pi [OF y lt x])
  with i show "insideCurveIntensity i < insideCurveIntensity (Suc i)"
    unfolding insideCurveIntensity_def by simp
next
  fix i :: nat assume "i < 8"
  then have "0 < real i * 0.2 + 0.25" "real i * 0.2 + 0.25 < pi"
    using pi_ge_three by simp_all
  with \<open>i < 8\<close> show "0 < insideCurveIntensity i"
    by (simp add: insideCurveIntensity_def sin_gt_zero)
next
  fix i :: nat assume "8 \<le> i"
  then show "insideCurveIntensity i = 0" by (simp add: insideCurveIntensity_def)
qed

section \<open>Witnesses\<close>

lemma mounted_mesh_length:
  "length (skeleton (the (mesh_ref (page_mount front back)))) = Suc PAGE_SEGMENTS"
  using manual_skeleton_wf by (simp add: page_mount_mesh chain_wf_def)

theorem page_frames_converge_witness:
  "\<exists>N. \<forall>m\<ge>N. rotation_y (skeleton (the (mesh_ref (page_frames m
        \<lparr>number = 0, page = 0, opened = False, bookClosed = True\<rparr> (1 / 60) (page_mount ''a'' ''b''))))
        ! 1) = rotationAngle \<lparr>number = 0, page = 0, opened = False, bookClosed = True\<rparr> 1"
  using page_frames_converge [of "1 / 60" "\<lparr>number = 0, page = 0, opened = False, bookClosed = True\<rparr>" 1]
  by (simp add: page_consts)

theorem page_turn_converges_witness:
  "\<exists>N. \<forall>k\<ge>N. rotation_y (skeleton (the (mesh_ref
      (page_frames k \<lparr>number = 3, page = 4, opened = True, bookClosed = False\<rparr> (1 / 60)
        (page_frames 20 \<lparr>number = 3, page = 3, opened = False, bookClosed = False\<rparr> (1 / 60)
          (page_mount ''a'' ''b''))))) ! 1)
     = rotationAngle \<lparr>number = 3, page = 4, opened = True, bookClosed = False\<rparr> 1"
proof -
  have h: "0 < (1 / 60 :: real)"
    "number \<lparr>number = 3, page = 3, opened = False, bookClosed = False\<rparr> \<le> 100"
    "number \<lparr>number = 3, page = 4, opened = True, bookClosed = False\<rparr> \<le> 100"
    "0 < (1::nat)" "1 \<le> PAGE_SEGMENTS"
    by (simp_all add: page_consts)
  from page_turn_converges [OF h] show ?thesis by blast
qed

theorem page_frames_no_overshoot_witness:
  "damp_rate (1 / 60) < 1"
  using page_frames_no_overshoot [of "1 / 60" "\<lparr>number = 0, page = 0, opened = True, bookClosed = False\<rparr>" 1]
  by (simp add: page_consts)

theorem page_frames_hinge_frozen_witness:
  "group_rotation_y (page_frames 5 \<lparr>number = 2, page = 3, opened = True, bookClosed = False\<rparr> (1 / 60)
      (page_mount ''a'' ''b'')) = 0"
proof -
  have h: "mesh_ref (page_mount ''a'' ''b'') = Some (the (mesh_ref (page_mount ''a'' ''b'')))"
    by (simp add: page_mount_mesh)
  have l: "0 < length (skeleton (the (mesh_ref (page_mount ''a'' ''b''))))"
    by (simp add: mounted_mesh_length)
  from page_frames_hinge_frozen [OF h l] show ?thesis by (simp add: page_mount_def case_prod_beta)
qed

theorem page_frame_skip_witness:
  "page_frame \<lparr>number = 0, page = 1, opened = True, bookClosed = False\<rparr> (1 / 60)
     \<lparr>mesh_ref = None, group_rotation_y = 1, group_velocity_y = 0\<rparr>
   = \<lparr>mesh_ref = None, group_rotation_y = 1, group_velocity_y = 0\<rparr>"
  by (rule page_frame_skip) simp

theorem page_frame_equiv_witness:
  "group_rotation_y (page_frame \<lparr>number = 0, page = 1, opened = True, bookClosed = False\<rparr> (1 / 60)
      (page_mount ''a'' ''b'')) = 0"
proof -
  have h: "mesh_ref (page_mount ''a'' ''b'') = Some (the (mesh_ref (page_mount ''a'' ''b'')))"
    by (simp add: page_mount_mesh)
  from page_frame_equiv [OF h] show ?thesis by (simp add: page_mount_def case_prod_beta)
qed

theorem page_frame_at_rest_witness:
  "page_frame \<lparr>number = 0, page = 0, opened = False, bookClosed = True\<rparr> (1 / 60) (page_mount ''a'' ''b'')
   = page_mount ''a'' ''b''"
proof -
  let ?p = "\<lparr>number = 0, page = 0, opened = False, bookClosed = True\<rparr>"
  let ?m = "the (mesh_ref (page_mount ''a'' ''b''))"
  have h: "mesh_ref (page_mount ''a'' ''b'') = Some ?m" by (simp add: page_mount_mesh)
  have "rotation_y (skeleton ?m ! i) = rotationAngle ?p i" if "i \<in> {1..<length (skeleton ?m)}" for i
  proof -
    from that have "i \<le> PAGE_SEGMENTS" "0 < i" by (auto simp: mounted_mesh_length)
    then show ?thesis
      using manual_skeleton_at_rest by (simp add: page_mount_mesh rotationAngle_def Let_def)
  qed
  then show ?thesis by (intro page_frame_at_rest [OF h]) blast
qed

theorem insideCurveIntensity_shape_witness:
  "insideCurveIntensity 0 < insideCurveIntensity 1 \<and> insideCurveIntensity 9 = 0"
  using insideCurveIntensity_shape by simp

end
