(* ===== verification/Book_Scene.thy ===== *)
theory Book_Scene
  imports Page_Animator
begin

text \<open>
  The \<open>Book\<close> component (\<open>Book.jsx\<close>, lines 197--212) and the module-level preload
  (lines 91--94). The external store supplies the current page \<open>page\<close> (\<open>pageAtom\<close>)
  and the ordered page descriptors (\<open>pages\<close>, from \<open>UI.jsx\<close>, which is not part of the
  sources). The book renders one \<open>Page\<close> per descriptor, passing each its index, the
  current page and the two booleans derived from them; every page then runs its own frame
  callback. Pages share no mutable state, so a frame of the book is the frame of every page.
\<close>

section \<open>Definitions\<close>

text \<open>An entry \<open>{front, back}\<close> of \<open>pages\<close> in \<open>UI.jsx\<close>: the texture ids of the two sides.\<close>

record page_desc =
  front_id :: string
  back_id :: string

text \<open>Lines 201--209: the props of the page at \<open>index\<close> when the store holds \<open>cur_page\<close> (the component's \<open>page\<close>).\<close>

definition book_page_props :: "nat \<Rightarrow> int \<Rightarrow> nat \<Rightarrow> page_props" where
  "book_page_props n cur_page index =
     \<lparr>number = index, page = cur_page, opened = (cur_page > int index),
      bookClosed = (cur_page = 0 \<or> cur_page = int n)\<rparr>"

text \<open>Line 191: the page's offset along \<open>z\<close>, \<open>-number * PAGE_DEPTH + page * PAGE_DEPTH\<close>.\<close>

definition page_position_z :: "page_props \<Rightarrow> real" where
  "page_position_z p = - real (number p) * PAGE_DEPTH + real_of_int (page p) * PAGE_DEPTH"

text \<open>Lines 91--94: the paths preloaded at module load, front then back, page by page.\<close>

definition preload_paths :: "page_desc list \<Rightarrow> string list" where
  "preload_paths pages =
     concat (map (\<lambda>d. [texture_path (front_id d), texture_path (back_id d)]) pages)"

text \<open>The paths \<open>Page\<close> number \<open>index\<close> loads (lines 97--100).\<close>

definition page_paths :: "page_desc list \<Rightarrow> nat \<Rightarrow> string list" where
  "page_paths pages index =
     [texture_path (front_id (pages ! index)), texture_path (back_id (pages ! index))]"

definition book_mount :: "page_desc list \<Rightarrow> page_inst list" where
  "book_mount pages = map (\<lambda>d. page_mount (front_id d) (back_id d)) pages"

text \<open>One rendered frame: every page's callback, with the book's props for that page.\<close>

definition book_frame :: "page_desc list \<Rightarrow> int \<Rightarrow> real \<Rightarrow> page_inst list \<Rightarrow> page_inst list" where
  "book_frame pages cur_page delta insts =
     map (\<lambda>k. page_frame (book_page_props (length pages) cur_page k) delta (insts ! k))
         [0..<length insts]"

definition book_frames ::
  "nat \<Rightarrow> page_desc list \<Rightarrow> int \<Rightarrow> real \<Rightarrow> page_inst list \<Rightarrow> page_inst list" where
  "book_frames m pages cur_page delta = book_frame pages cur_page delta ^^ m"

section \<open>Lemmas\<close>

lemma filter_less_upt: "filter (\<lambda>k. k < c) [0..<n] = [0..<min c n]"
proof (induction n)
  case 0
  then show ?case by simp
next
  case (Suc n)
  show ?case
  proof (cases "n < c")
    case True
    then have "min c n = n" "min c (Suc n) = Suc n" by simp_all
    with Suc True show ?thesis by simp
  next
    case False
    then have "min c n = c" "min c (Suc n) = c" by simp_all
    with Suc False show ?thesis by simp
  qed
qed

lemma length_book_frame [simp]: "length (book_frame pages cur_page delta insts) = length insts"
  by (simp add: book_frame_def)

lemma nth_book_frame:
  "k < length insts \<Longrightarrow> book_frame pages cur_page delta insts ! k =
     page_frame (book_page_props (length pages) cur_page k) delta (insts ! k)"
  by (simp add: book_frame_def)

lemma book_frames_nth:
  "k < length insts \<Longrightarrow> book_frames m pages cur_page delta insts ! k =
     page_frames m (book_page_props (length pages) cur_page k) delta (insts ! k)"
proof (induction m)
  case 0
  then show ?case by (simp add: book_frames_def page_frames_def)
next
  case (Suc m)
  have "length (book_frames m pages cur_page delta insts) = length insts"
    by (induction m) (simp_all add: book_frames_def)
  with Suc show ?case by (simp add: book_frames_def page_frames_def nth_book_frame)
qed

lemma length_book_frames [simp]: "length (book_frames m pages cur_page delta insts) = length insts"
  by (induction m) (simp_all add: book_frames_def)

section \<open>Properties of the book\<close>

text \<open>
  C15: while the store's page lies in \<open>[0, n]\<close>, exactly the pages with index
  below it are open, so \<open>page\<close> counts the turned pages.
\<close>

theorem book_open_pages:
  assumes "0 \<le> cur_page" "cur_page \<le> int n"
  shows "filter (\<lambda>k. opened (book_page_props n cur_page k)) [0..<n] = [0..<nat cur_page]"
proof -
  have "(\<lambda>k. opened (book_page_props n cur_page k)) = (\<lambda>k. k < nat cur_page)"
    using assms(1) by (auto simp: book_page_props_def)
  moreover have "min (nat cur_page) n = nat cur_page" using assms by simp
  ultimately show ?thesis by (simp add: filter_less_upt)
qed

text \<open>
  C16: the pages are stacked one \<open>PAGE_DEPTH\<close> apart along \<open>z\<close>, each page
  behind the one before it, and the stack is shifted so that the current page sits at
  \<open>z = 0\<close>.
\<close>

theorem page_stack_z:
  assumes "0 \<le> cur_page"
  shows "page_position_z (book_page_props n cur_page k) - page_position_z (book_page_props n cur_page (Suc k))
           = PAGE_DEPTH
       \<and> page_position_z (book_page_props n cur_page (nat cur_page)) = 0"
  using assms by (simp add: page_position_z_def book_page_props_def algebra_simps)

text \<open>
  C17: the preload list holds, at slots \<open>2k\<close> and \<open>2k + 1\<close>, exactly
  the two paths page \<open>k\<close> loads, so every texture a page requests was preloaded.
\<close>

theorem preload_covers_pages:
  assumes "k < length pages"
  shows "take 2 (drop (2 * k) (preload_paths pages)) = page_paths pages k"
  using assms unfolding preload_paths_def page_paths_def
  by (subst block_concat_blocks) simp_all

section \<open>Witnesses\<close>

theorem book_open_pages_witness:
  "filter (\<lambda>k. opened (book_page_props 4 2 k)) [0..<4] = [0..<nat 2]"
  by (rule book_open_pages) simp_all

theorem page_stack_z_witness:
  "page_position_z (book_page_props 4 2 (nat 2)) = 0"
  using page_stack_z [of 2 4 0] by simp

theorem preload_covers_pages_witness:
  "take 2 (drop (2 * 1) (preload_paths [\<lparr>front_id = ''a'', back_id = ''b''\<rparr>, \<lparr>front_id = ''c'', back_id = ''d''\<rparr>]))
   = page_paths [\<lparr>front_id = ''a'', back_id = ''b''\<rparr>, \<lparr>front_id = ''c'', back_id = ''d''\<rparr>] 1"
  by (rule preload_covers_pages) simp

end
