(* ===== verification/Spec2Isabelle.thy ===== *)
theory Spec2Isabelle
  imports Book_Scene
begin

text \<open>
  \<^bold>\<open>A verification development of the animated book slider.\<close>

  The program (\<open>src/src/components/Book.jsx\<close>) renders a book as a stack of skinned
  page meshes. Its parts and how they interact:
  \<^item> \<^emph>\<open>Page geometry\<close> (lines 22--73), built once at module load and shared by every
    page: a \<open>BoxGeometry\<close> of 30 width segments, shifted so that the spine edge is at
    \<open>x = 0\<close>, with a \<open>skinIndex\<close>/\<open>skinWeight\<close> pair of attributes (item size 4)
    binding each vertex to bones \<open>floor(x/SW)\<close> and \<open>floor(x/SW) + 1\<close>.
  \<^item> \<^emph>\<open>Page mesh\<close> (lines 25--31, 76--148), built when a \<open>Page\<close> mounts: its two
    textures (sRGB), its own chain of 31 bones, six materials (four shared) and the
    \<open>SkinnedMesh\<close> binding the shared geometry to the chain.
  \<^item> \<^emph>\<open>Page animator\<close> (lines 152--184), the \<open>useFrame\<close> callback run every frame:
    it derives a base angle from the props \<open>opened\<close>, \<open>bookClosed\<close> and
    \<open>number\<close>, a target angle per bone, and eases each bone's \<open>rotation.y\<close> towards it
    with maath's \<open>easing.dampAngle\<close> (a critically damped spring keeping a velocity).
  \<^item> \<^emph>\<open>Book\<close> (lines 91--94, 197--212): preloads every texture, renders one page
    per descriptor and derives each page's props from the store's current page.
  The page geometry is read-only after construction; each page owns its bones; the only
  flow between components is the props from the book to each page and the frame time from
  the frame driver.

  \<^bold>\<open>Theories.\<close>
  \<^item> \<open>Book_Prelude\<close>: the types \<open>angle\<close> and \<open>vec3\<close>, the collections
    \<open>page_consts\<close> (the module constants, for ground evaluation) and \<open>frame_simps\<close>,
    JavaScript's truncated remainder \<open>js_rem\<close> and \<open>js_clamp\<close>, and shared facts on
    floors, interleaved list blocks and \<open>3 \<le> \<pi>\<close>.
  \<^item> \<open>Page_Geometry\<close>: the constants; \<open>buildPlane\<close>/\<open>BoxGeometry\<close>/\<open>translate\<close>
    (three.js, modelled from its construction: not part of the sources);
    \<open>page_positions\<close>; the loop body \<open>vertex_skin\<close> and the loop \<open>skin_loop\<close>
    (state passing of the two pushed arrays); \<open>Uint16BufferAttribute\<close> into
    \<open>16 word\<close>; the record \<open>page_geometry\<close>, \<open>skinned_geometry\<close> (lines 49--73
    over any position attribute) and \<open>pageGeometry\<close>. Lemmas: the binding of any
    offset on the page, the binding of offsets just left of the spine (where
    \<open>Math.max\<close> acts), the slot layout of the two buffers for any attribute, and the
    exact span \<open>[0, PAGE_WIDTH]\<close> of the exact positions.
  \<^item> \<open>Page_Mesh\<close>: textures (\<open>setTextureColorSpace\<close> with its \<open>undefined\<close> branch,
    \<open>texture_path\<close>, \<open>page_pictures\<close>), materials, the bone arena (\<open>bone\<close> with
    parent index, \<open>position.x\<close>, \<open>rotation.y\<close> and maath's velocity), the creation
    loop \<open>bones_loop\<close> (a \<open>function\<close> with a measure), the record
    \<open>skinned_mesh\<close> and \<open>manualSkinnedMesh\<close>; \<open>joint_world\<close> places the joints
    as three.js does (the misspelt \<open>frustcumCulled\<close> is kept as an extra property,
    \<open>frustumCulled\<close> stays at its default). Lemmas: the built chain is well formed and
    at rest, and its rest joints are the grid columns.
  \<^item> \<open>Maath_Easing\<close>: maath's \<open>damp\<close>, \<open>repeat\<close>, \<open>deltaAngle\<close>,
    \<open>dampAngle\<close> (library code, modelled from its published source with the defaults
    the call leaves: \<open>maxSpeed = Infinity\<close> as \<open>None\<close>, the rational \<open>exp\<close>,
    \<open>eps = 0.001\<close>). Lemmas: \<open>deltaAngle\<close> is the shortest signed angle; one spring
    step from a \<^emph>\<open>consistent\<close> state (velocity towards the target, not crossing it)
    stays consistent, never crosses the target and shrinks the offset by
    \<open>damp_rate delta = (1 + 4 delta) exp(4 delta) < 1\<close>; a run reaches the target
    exactly once \<open>damp_rate delta ^ n * |offset| \<le> 0.001\<close>, and keeps its velocity
    within \<open>4 max(|offset|, eps)\<close>. From \<^emph>\<open>any\<close> state: between snaps and
    clamps the spring is the linear map \<open>spring_lin\<close>, whose \<open>n\<close>-th power has a
    closed form (critical damping: identity plus a nilpotent part); by Bernoulli's
    inequality its offset is at most \<open>damp_rate delta ^ n * (|c| + |v| / 4)\<close>, so a run
    from offset \<open>c\<close> and velocity \<open>v\<close> with \<open>|c| + |v| / 4 < pi\<close> reaches its
    target exactly.
  \<^item> \<open>Page_Animator\<close>: \<open>page_props\<close>, \<open>page_inst\<close> (mesh reference and group
    rotation), \<open>target_rotation\<close>, \<open>insideCurveIntensity\<close>, \<open>rotationAngle\<close>,
    \<open>damp_bone\<close>, the loop body \<open>frame_bone\<close> (with its dead index-0 branch) and
    the callback \<open>page_frame\<close> (a \<open>fold\<close> over \<open>[1..<length bones]\<close>);
    \<open>page_mount\<close> and \<open>page_frames\<close> (\<open>n\<close> frames). Lemmas: the loop equals a
    parallel map (the loop body writes only the bone it reads), convergence and monotone
    approach of every bone from mount, convergence again after the props change
    mid-animation (the page turn, starting from the velocity the bones kept), the frozen
    hinge, the skipped frame, idempotence at rest and the curl shape.
  \<^item> \<open>Book_Scene\<close>: \<open>page_desc\<close>, \<open>book_page_props\<close>, \<open>page_position_z\<close>, the
    preload list, \<open>book_mount\<close> and \<open>book_frame\<close> (every page's callback on its own
    state). Lemmas: which pages are open, the z stacking, preload coverage.
  \<^item> This theory: properties spanning the components: the whole book converges; linear
    blend skinning with the buffers of any position attribute and the rest joints of the
    page's chain reproduces every vertex; the free edge names bone 31, past the chain.

  \<^bold>\<open>Bounds and why they suffice.\<close> There is no fuel: every loop of the program is a
  bounded index loop (\<open>fold\<close> or a \<open>function\<close> with a measure). Convergence is
  stated for a positive frame time and at most 1001 pages: then every bone's target
  (at most \<open>0.15 (\<pi>/2 + 800 \<pi>/180) < \<pi>\<close> in absolute value) is within
  \<open>\<pi>\<close> of the rest angle, the distance beyond which \<open>dampAngle\<close> would ease towards
  another representative of the angle. The frame count after which a
  bone is exactly at its target is explicit: any \<open>n\<close> with
  \<open>damp_rate delta ^ n * |target| \<le> 0.001\<close>, plus one. The page turn is stated for at
  most 101 pages: then both targets are at most \<open>17/120 pi\<close>, and the interrupted
  state (offset at most \<open>|t1|\<close> from the old target, velocity at most
  \<open>4 (|t1| + eps)\<close>) satisfies \<open>|c| + |v| / 4 \<le> 3 |t1| + |t2| + eps < pi\<close>.
  The skinning theorem covers offsets in \<open>(-SW, PAGE_WIDTH)\<close>: every vertex whose two
  bones exist, including the Float32 positions just left of the spine.

  \<^bold>\<open>Not modelled.\<close> Floating point: numbers are exact reals. The positions the
  program stores are the Float32 roundings of \<open>page_positions\<close> (vertices fall within
  about \<open>1e-8\<close> of the joints, some just below them, the spine column just below 0); the
  skinning theorems take the position attribute as a parameter to cover them, while the
  span theorem is about the exact positions. Also not modelled: the Float32 rounding of
  the weights and the double rounding inside the loop body and the spring; React's rendering, hook caching and refs beyond
  the mesh reference; the store in \<open>UI.jsx\<close> (not in the sources: its page and page list
  are parameters); GPU skinning, shadows and drawing; object identity of the shared
  materials; bones' children lists and inverse bind matrices.
\<close>

section \<open>Properties that span the components\<close>

lemma rest_joints_manual:
  assumes "i \<le> PAGE_SEGMENTS"
  shows "joint_world (skeleton (manualSkinnedMesh pic pic2)) i = (real i * SEGMENT_WIDTH, 0, 0)"
  using chain_rest_joint [OF manual_skeleton_wf _ assms] manual_skeleton_at_rest by blast

text \<open>
  C7: linear blend skinning reproduces the bind pose. For any position attribute
  (the exact one, or the \<open>Float32\<close> values the program stores, which can fall just
  left of the spine), every vertex whose width offset lies strictly between \<open>-SW\<close>
  and \<open>PAGE_WIDTH\<close> has four index slots that, read back from the \<open>Uint16\<close>
  buffer, name bones of the page's chain; its four weights sum to 1; and the weighted sum
  of the rest joints of those bones is the vertex's own offset. For a negative offset it is
  \<open>Math.max(0, ...)\<close> that makes this hold: without it the index would be -1, stored
  as 65535.
\<close>

theorem skinned_rest_pose:
  assumes "k < length ps" "- SEGMENT_WIDTH < fst (ps ! k)" "fst (ps ! k) < PAGE_WIDTH"
  shows "(\<forall>j<4. unat (skinIndex (skinned_geometry ps) ! (4 * k + j))
                 < length (skeleton (manualSkinnedMesh pic pic2)))
       \<and> (\<Sum>j<4. skinWeight (skinned_geometry ps) ! (4 * k + j)) = 1
       \<and> (\<Sum>j<4. skinWeight (skinned_geometry ps) ! (4 * k + j)
             * fst (joint_world (skeleton (manualSkinnedMesh pic pic2))
                      (unat (skinIndex (skinned_geometry ps) ! (4 * k + j)))))
         = fst (ps ! k)"
proof -
  obtain m w where m: "m < PAGE_SEGMENTS"
    and vs: "vertex_skin (fst (ps ! k)) = ([int m, int m + 1, 0, 0], [1 - w, w, 0, 0])"
    and x: "real m * SEGMENT_WIDTH + w * SEGMENT_WIDTH = fst (ps ! k)"
    using vertex_skin_blend [OF assms(2,3)] by blast
  let ?bs = "skeleton (manualSkinnedMesh pic pic2)"
  let ?I = "\<lambda>j. unat (skinIndex (skinned_geometry ps) ! (4 * k + j))"
  let ?W = "\<lambda>j. skinWeight (skinned_geometry ps) ! (4 * k + j)"
  have small: "m < 2 ^ 16" "Suc m < 2 ^ 16" using m by (simp_all add: page_consts)
  have u0: "unat (word_of_int (int m) :: 16 word) = m"
  proof -
    have "(word_of_int (int m) :: 16 word) = word_of_nat m" by simp
    then show ?thesis using small(1) by (simp only: unat_of_nat) simp
  qed
  have u1: "unat (word_of_int (int m + 1) :: 16 word) = Suc m"
  proof -
    have "(word_of_int (int m + 1) :: 16 word) = word_of_nat (Suc m)" by simp
    then show ?thesis using small(2) by (simp only: unat_of_nat) simp
  qed
  have slot: "skinIndex (skinned_geometry ps) ! (4 * k + j) = word_of_int ([int m, int m + 1, 0, 0] ! j)"
    "?W j = [1 - w, w, 0, 0] ! j" if "j < 4" for j
    using skinned_geometry_slots(1,2) [OF assms(1) that] vs by simp_all
  have I: "?I 0 = m" "?I 1 = Suc m" "?I 2 = 0" "?I 3 = 0"
    using slot(1) [of 0] slot(1) [of 1] slot(1) [of 2] slot(1) [of 3] u0 u1 by simp_all
  have W: "?W 0 = 1 - w" "?W 1 = w" "?W 2 = 0" "?W 3 = 0"
    using slot(2) [of 0] slot(2) [of 1] slot(2) [of 2] slot(2) [of 3] by simp_all
  have len: "length ?bs = Suc PAGE_SEGMENTS"
    using manual_skeleton_wf [of pic pic2] by (simp add: chain_wf_def)
  have J: "fst (joint_world ?bs m) = real m * SEGMENT_WIDTH"
    "fst (joint_world ?bs (Suc m)) = real (Suc m) * SEGMENT_WIDTH"
    using m by (simp_all add: rest_joints_manual)
  have sum4: "(\<Sum>j<4. f j) = f 0 + f 1 + f 2 + f (3::nat)" for f :: "nat \<Rightarrow> real"
    by (simp add: eval_nat_numeral)
  have all4: "(\<forall>j<4. P j) \<longleftrightarrow> P 0 \<and> P 1 \<and> P 2 \<and> P (3::nat)" for P
    by (auto simp: eval_nat_numeral less_Suc_eq)
  show ?thesis
    unfolding sum4 all4 I W J using m len x by (simp add: algebra_simps)
qed
text \<open>
  C13: the vertices on the free edge \<open>x = PAGE_WIDTH\<close> get as second
  index \<open>PAGE_SEGMENTS + 1\<close>, which is the length of the page's chain: it names a bone
  that does not exist. The weight in that slot is 0, so three.js's skinning is not affected,
  but the spec's bound \<open>skinIndex[1] \<le> S\<close> does not hold.
\<close>

theorem skin_index_past_last_bone:
  "\<exists>k<length (position pageGeometry).
     unat (skinIndex pageGeometry ! (4 * k + 1)) = length (skeleton (manualSkinnedMesh pic pic2))
     \<and> skinWeight pageGeometry ! (4 * k + 1) = 0"
proof -
  from first_vertex_free_edge have k: "0 < length page_positions"
    and x: "fst (page_positions ! 0) = real PAGE_SEGMENTS * SEGMENT_WIDTH" by blast+
  have bi: "take 4 (drop (4 * 0) (skinIndex pageGeometry)) = [of_nat PAGE_SEGMENTS, of_nat PAGE_SEGMENTS + 1, 0, 0]"
    and bw: "take 4 (drop (4 * 0) (skinWeight pageGeometry)) = [1, 0, 0, 0]"
    using skin_blocks_at_joint [OF k x] by blast+
  have i: "skinIndex pageGeometry ! (4 * 0 + 1) = of_nat PAGE_SEGMENTS + 1"
    using nth_of_block [OF bi, of 1] by simp
  have w: "skinWeight pageGeometry ! (4 * 0 + 1) = 0"
    using nth_of_block [OF bw, of 1] by simp
  have "unat (of_nat PAGE_SEGMENTS + 1 :: 16 word) = Suc PAGE_SEGMENTS"
    by (simp add: page_consts)
  moreover have "length (skeleton (manualSkinnedMesh pic pic2)) = Suc PAGE_SEGMENTS"
    using manual_skeleton_wf [of pic pic2] by (simp add: chain_wf_def)
  ultimately show ?thesis
    using i w k by (intro exI [of _ 0]) (simp add: pageGeometry_fields)
qed

text \<open>
  C4: the whole book settles: with the store's page fixed and a positive
  frame time, after finitely many frames every bone from index 1 on of every page of a
  mounted book (up to 1001 pages) sits exactly at its target angle.
\<close>

theorem book_frames_converge:
  assumes "0 < delta" "length pages \<le> 1001"
  shows "\<exists>N. \<forall>m\<ge>N. \<forall>k<length pages. \<forall>i\<in>{1..PAGE_SEGMENTS}.
           rotation_y (skeleton (the (mesh_ref (book_frames m pages cur_page delta (book_mount pages) ! k))) ! i)
           = rotationAngle (book_page_props (length pages) cur_page k) i"
proof -
  let ?P = "\<lambda>k i m. rotation_y (skeleton (the (mesh_ref (page_frames m
              (book_page_props (length pages) cur_page k) delta
              (page_mount (front_id (pages ! k)) (back_id (pages ! k)))))) ! i)
              = rotationAngle (book_page_props (length pages) cur_page k) i"
  have "\<forall>x. \<exists>N. fst x < length pages \<and> snd x \<in> {1..PAGE_SEGMENTS} \<longrightarrow> (\<forall>m\<ge>N. ?P (fst x) (snd x) m)"
  proof
    fix x :: "nat \<times> nat"
    show "\<exists>N. fst x < length pages \<and> snd x \<in> {1..PAGE_SEGMENTS} \<longrightarrow> (\<forall>m\<ge>N. ?P (fst x) (snd x) m)"
    proof (cases "fst x < length pages \<and> snd x \<in> {1..PAGE_SEGMENTS}")
      case True
      then have "number (book_page_props (length pages) cur_page (fst x)) \<le> 1000"
        "0 < snd x" "snd x \<le> PAGE_SEGMENTS"
        using assms(2) by (auto simp: book_page_props_def)
      from mounted_bones_converge [OF assms(1) this] show ?thesis by blast
    qed blast
  qed
  then obtain f where f: "\<And>k i m. k < length pages \<Longrightarrow> i \<in> {1..PAGE_SEGMENTS} \<Longrightarrow> f (k, i) \<le> m \<Longrightarrow> ?P k i m"
    by (metis fst_conv snd_conv choice)
  let ?N = "Max (f ` ({..<length pages} \<times> {1..PAGE_SEGMENTS}))"
  have "?P k i m" if "?N \<le> m" "k < length pages" "i \<in> {1..PAGE_SEGMENTS}" for m k i
  proof -
    have "f (k, i) \<le> ?N" using that(2,3) by (intro Max_ge) auto
    with that(1) have "f (k, i) \<le> m" by linarith
    with that(2,3) show ?thesis by (rule f)
  qed
  then show ?thesis
    by (intro exI [of _ ?N]) (simp add: book_frames_nth book_mount_def)
qed

section \<open>Witnesses\<close>

theorem skinned_rest_pose_witness:
  "- SEGMENT_WIDTH < - 1 / 100000000 \<and> - 1 / 100000000 < PAGE_WIDTH
   \<and> (\<Sum>j<4. skinWeight (skinned_geometry [(- 1 / 100000000, 0, 0)]) ! (4 * 0 + j)
          * fst (joint_world (skeleton (manualSkinnedMesh None None))
                   (unat (skinIndex (skinned_geometry [(- 1 / 100000000, 0, 0)]) ! (4 * 0 + j)))))
       = - 1 / 100000000"
proof -
  have h: "- SEGMENT_WIDTH < - 1 / 100000000" "- 1 / 100000000 < PAGE_WIDTH"
    by (simp_all add: page_consts)
  have "- SEGMENT_WIDTH < fst ([(- 1 / 100000000 :: real, 0 :: real, 0 :: real)] ! 0)"
    "fst ([(- 1 / 100000000 :: real, 0 :: real, 0 :: real)] ! 0) < PAGE_WIDTH"
    using h by simp_all
  from skinned_rest_pose [OF _ this, of None None] h show ?thesis by simp
qed

theorem book_frames_converge_witness:
  "\<exists>N. \<forall>m\<ge>N. \<forall>k<length [\<lparr>front_id = ''a'', back_id = ''b''\<rparr>]. \<forall>i\<in>{1..PAGE_SEGMENTS}.
     rotation_y (skeleton (the (mesh_ref (book_frames m [\<lparr>front_id = ''a'', back_id = ''b''\<rparr>] 1 (1 / 60)
        (book_mount [\<lparr>front_id = ''a'', back_id = ''b''\<rparr>]) ! k))) ! i)
     = rotationAngle (book_page_props (length [\<lparr>front_id = ''a'', back_id = ''b''\<rparr>]) 1 k) i"
  by (rule book_frames_converge) simp_all

end
